theory Spec2Isabelle
  imports Complex_Main
begin

section \<open>Values and exceptions of the host language\<close>

text \<open>
  The streaming client is TypeScript; at run time every event it handles is whatever
  \<^verbatim>\<open>JSON.parse\<close> produced. A parsed value is a \<open>json\<close>; \<^verbatim>\<open>undefined\<close> is \<open>None\<close> of
  \<open>json option\<close>. An object keeps its members in source order, and a later member
  with the same key shadows an earlier one, as \<^verbatim>\<open>JSON.parse\<close> does.
  Text is a \<open>string\<close>: one \<open>char\<close> stands for one code unit of the decoded text.
\<close>

datatype json =
    JNull
  | JBool bool
  | JNum real
  | JStr string
  | JArr "json list"
  | JObj "(string \<times> json) list"

type_synonym js_value = "json option"

text \<open>Truthiness, as \<^verbatim>\<open>if (x)\<close>, \<^verbatim>\<open>!x\<close> and \<^verbatim>\<open>x || y\<close> test it.\<close>

fun truthy :: "js_value \<Rightarrow> bool" where
  "truthy None = False"
| "truthy (Some JNull) = False"
| "truthy (Some (JBool b)) = b"
| "truthy (Some (JNum n)) = (n \<noteq> 0)"
| "truthy (Some (JStr s)) = (s \<noteq> [])"
| "truthy (Some (JArr _)) = True"
| "truthy (Some (JObj _)) = True"

definition or_js :: "js_value \<Rightarrow> js_value \<Rightarrow> js_value" where
  "or_js a b = (if truthy a then a else b)"

text \<open>
  What can be thrown. \<open>ApiClientError message status code details\<close> is the client's own
  error class; \<open>Error x\<close> is \<^verbatim>\<open>new Error(x)\<close>; \<open>AbortError\<close> is what an aborted
  \<^verbatim>\<open>fetch\<close> rejects with; \<open>Thrown v\<close> is a thrown value that is no \<^verbatim>\<open>Error\<close> instance.
\<close>

datatype exn =
    ApiClientError js_value nat js_value js_value
  | AbortError
  | Error js_value
  | SyntaxError string
  | TypeError string
  | Thrown js_value

text \<open>
  Reading a member. None of the keys the client reads (\<^verbatim>\<open>type\<close>, \<^verbatim>\<open>response\<close>,
  \<^verbatim>\<open>content\<close>, \<^verbatim>\<open>run\<close>, \<^verbatim>\<open>message\<close>, \<^verbatim>\<open>error\<close>, \<^verbatim>\<open>code\<close>, \<^verbatim>\<open>details\<close>) is inherited
  from a prototype, so only an object's own members answer. \<open>member\<close> is \<^verbatim>\<open>v.k\<close>,
  which throws on \<^verbatim>\<open>null\<close> and \<^verbatim>\<open>undefined\<close>; \<open>opt_member\<close> is \<^verbatim>\<open>v?.k\<close>.
\<close>

fun own_prop :: "json \<Rightarrow> string \<Rightarrow> js_value" where
  "own_prop (JObj kvs) k = map_of (rev kvs) k"
| "own_prop _ k = None"

definition member :: "js_value \<Rightarrow> string \<Rightarrow> exn + js_value" where
  "member v k =
     (case v of
        None \<Rightarrow> Inl (TypeError ''Cannot read properties of undefined'')
      | Some JNull \<Rightarrow> Inl (TypeError ''Cannot read properties of null'')
      | Some j \<Rightarrow> Inr (own_prop j k))"

definition opt_member :: "js_value \<Rightarrow> string \<Rightarrow> js_value" where
  "opt_member v k =
     (case v of None \<Rightarrow> None | Some JNull \<Rightarrow> None | Some j \<Rightarrow> own_prop j k)"

section \<open>String operations the decoder uses\<close>

text \<open>\<^verbatim>\<open>s.split('\n')\<close>: the pieces between line feeds; never an empty array.\<close>

fun split_nl :: "string \<Rightarrow> string list" where
  "split_nl [] = [[]]"
| "split_nl (c # cs) =
     (if c = CHR 0x0A then [] # split_nl cs
      else (case split_nl cs of [] \<Rightarrow> [[c]] | l # ls \<Rightarrow> (c # l) # ls))"

text \<open>\<^verbatim>\<open>lines.pop() || ''\<close>: the last piece, or the empty string when there is none.\<close>

definition pop_or_empty :: "string list \<Rightarrow> string" where
  "pop_or_empty ls = (if ls = [] then [] else last ls)"

text \<open>
  \<^verbatim>\<open>s.trim()\<close> removes white space at both ends; the client only asks whether anything is
  left. The white-space code units below 256 are tab, line feed, vertical tab, form feed,
  carriage return, space and no-break space.
\<close>

definition is_space :: "char \<Rightarrow> bool" where
  "is_space c = (c \<in> set [CHR 0x09, CHR 0x0A, CHR 0x0B, CHR 0x0C, CHR 0x0D, CHR 0x20, CHR 0xA0])"

definition trim :: "string \<Rightarrow> string" where
  "trim s = rev (dropWhile is_space (rev (dropWhile is_space s)))"

definition startsWith :: "string \<Rightarrow> string \<Rightarrow> bool" where
  "startsWith s p = (take (length p) s = p)"

definition slice :: "string \<Rightarrow> nat \<Rightarrow> string" where
  "slice s n = drop n s"

text \<open>Decimal digits of a number, as a template literal prints a non-negative integer.\<close>

fun show_nat :: "nat \<Rightarrow> string" where
  "show_nat n =
     (if n < 10 then [''0123456789'' ! n]
      else show_nat (n div 10) @ [''0123456789'' ! (n mod 10)])"

declare show_nat.simps [simp del]

section \<open>The aggregator's loop state\<close>

text \<open>
  The local variables of \<^verbatim>\<open>sendMessage\<close> that the handling of a line reads and writes
  (\<^verbatim>\<open>events\<close>, \<^verbatim>\<open>finalContent\<close>, \<^verbatim>\<open>runDetails\<close>), together with what it does to the
  outside: \<open>warned\<close> lists the lines passed to \<^verbatim>\<open>console.warn\<close>, \<open>delivered\<close> the events
  passed to \<^verbatim>\<open>onEvent\<close> as they were when passed, both in order, and \<open>observer\<close> is the
  callback's own state.
\<close>

record 'o aggregate =
  events :: "json list"
  finalContent :: js_value
  runDetails :: js_value
  warned :: "string list"
  delivered :: "json list"
  observer :: 'o

text \<open>
  The read loop's state: the rolling \<^verbatim>\<open>buffer\<close>, the \<^verbatim>\<open>TextDecoder\<close>'s pending state, and
  the variables above.
\<close>

record ('d, 'o) stream_state =
  buffer :: string
  decoder :: 'd
  agg :: "'o aggregate"

text \<open>
  An observer is called with the event. The event is a mutable object: the very object that
  has just been pushed to the log, that is classified after the call and that is returned
  in the log at the end. The observer may change it; it may have kept the events it was
  given earlier and change those; and the values captured from earlier events
  (\<^verbatim>\<open>finalContent\<close>, \<^verbatim>\<open>runDetails\<close>) are parts of such events, which it may change in place
  when they are objects or arrays. So an observer receives the event, the earlier entries
  of the log and its own state, and what a call of it does is: return normally (\<open>None\<close>) or
  throw; the event as it leaves it; its changes to earlier entries of the log, by
  position; what its changes in place make of an object captured earlier; and its own
  state afterwards. The changes of an observer are those it makes during its calls. In
  the language a changed object stays an object, and a change in place shows in every
  variable that holds the object; the effect allows more, and nothing below relies on it.
\<close>

record 'o effect =
  ef_thrown :: "exn option"
  ef_event :: json
  ef_edits :: "nat \<Rightarrow> json option"
  ef_touch :: "json \<Rightarrow> json"
  ef_state :: 'o

type_synonym 'o callback = "json \<Rightarrow> json list \<Rightarrow> 'o \<Rightarrow> 'o effect"

definition apply_edits :: "(nat \<Rightarrow> json option) \<Rightarrow> json list \<Rightarrow> json list" where
  "apply_edits edits entries =
     map (\<lambda>(i, x). case edits i of None \<Rightarrow> x | Some y \<Rightarrow> y) (enumerate 0 entries)"

text \<open>Strings, numbers, booleans, \<^verbatim>\<open>null\<close> and \<^verbatim>\<open>undefined\<close> cannot be changed in place.\<close>

definition in_place :: "(json \<Rightarrow> json) \<Rightarrow> js_value \<Rightarrow> js_value" where
  "in_place f v =
     (case v of
        Some (JObj kvs) \<Rightarrow> Some (f (JObj kvs))
      | Some (JArr xs) \<Rightarrow> Some (f (JArr xs))
      | _ \<Rightarrow> v)"

text \<open>
  \<^verbatim>\<open>if (onEvent) { onEvent(data); }\<close>, called when \<^verbatim>\<open>data\<close> is already the last entry of
  \<^verbatim>\<open>events\<close>. The second component of the result is \<^verbatim>\<open>data\<close> as it is after the call.
\<close>

definition call_onEvent ::
  "'o callback option \<Rightarrow> json \<Rightarrow> 'o aggregate \<Rightarrow> exn option \<times> json \<times> 'o aggregate" where
  "call_onEvent onEvent data st =
     (case onEvent of
        None \<Rightarrow> (None, data, st)
      | Some f \<Rightarrow>
          (let eff = f data (butlast (events st)) (observer st)
           in (ef_thrown eff, ef_event eff,
               st\<lparr>events := apply_edits (ef_edits eff) (butlast (events st)) @ [ef_event eff],
                  finalContent := in_place (ef_touch eff) (finalContent st),
                  runDetails := in_place (ef_touch eff) (runDetails st),
                  delivered := delivered st @ [data],
                  observer := ef_state eff\<rparr>)))"

text \<open>
  The \<^verbatim>\<open>if\<close>/\<^verbatim>\<open>else if\<close> chain on \<^verbatim>\<open>data.type\<close>. The result says whether the chain threw,
  and gives the state at that point.
\<close>

definition classify ::
  "json \<Rightarrow> 'o aggregate \<Rightarrow> exn option \<times> 'o aggregate" where
  "classify data st =
     (case member (Some data) ''type'' of
        Inl e \<Rightarrow> (Some e, st)
      | Inr t \<Rightarrow>
          if t = Some (JStr ''response.completed'') then
            (None, st\<lparr>finalContent :=
               or_js (opt_member (own_prop data ''response'') ''content'') (Some (JStr ''''))\<rparr>)
          else if t = Some (JStr ''stream.completed'') then
            (None, st\<lparr>runDetails := own_prop data ''run''\<rparr>)
          else if t = Some (JStr ''stream.error'') then
            (Some (Error (or_js (own_prop data ''message'') (own_prop data ''error''))), st)
          else (None, st))"

text \<open>
  The body of the inner \<^verbatim>\<open>try\<close>: parse the payload, push the event, call the observer,
  classify the event as the observer left it. \<open>parse\<close> is \<^verbatim>\<open>JSON.parse\<close>, with \<open>None\<close> for
  a \<^verbatim>\<open>SyntaxError\<close>.
\<close>

definition try_frame ::
  "(string \<Rightarrow> json option) \<Rightarrow> 'o callback option \<Rightarrow> string \<Rightarrow> 'o aggregate
     \<Rightarrow> exn option \<times> 'o aggregate" where
  "try_frame parse onEvent line st =
     (case parse (slice line 6) of
        None \<Rightarrow> (Some (SyntaxError ''Unexpected token''), st)
      | Some data \<Rightarrow>
          (let st1 = st\<lparr>events := events st @ [data]\<rparr>;
               (thrown, data', st2) = call_onEvent onEvent data st1
           in case thrown of
                Some e \<Rightarrow> (Some e, st2)
              | None \<Rightarrow> classify data' st2))"

text \<open>One iteration of \<^verbatim>\<open>for (const line of lines)\<close>, with the \<^verbatim>\<open>catch\<close> clause.\<close>

definition handle_line ::
  "(string \<Rightarrow> json option) \<Rightarrow> 'o callback option \<Rightarrow> string \<Rightarrow> 'o aggregate
     \<Rightarrow> 'o aggregate" where
  "handle_line parse onEvent line st =
     (if startsWith line ''data: '' then
        (case try_frame parse onEvent line st of
           (None, st') \<Rightarrow> st'
         | (Some caught, st') \<Rightarrow>
             if trim (slice line 6) \<noteq> [] then st'\<lparr>warned := warned st' @ [line]\<rparr> else st')
      else st)"

text \<open>
  \<^verbatim>\<open>decoder.decode(value, { stream: true })\<close>: a streaming decoder consumes the bytes one
  by one, emits text and keeps what is pending. Its step function \<open>step\<close> is a parameter.
\<close>

fun decode :: "('d \<Rightarrow> 'b \<Rightarrow> string \<times> 'd) \<Rightarrow> 'd \<Rightarrow> 'b list \<Rightarrow> string \<times> 'd" where
  "decode step d [] = ([], d)"
| "decode step d (b # bs) =
     (let (t, d') = step d b; (ts, d'') = decode step d' bs in (t @ ts, d''))"

text \<open>One iteration of \<^verbatim>\<open>while (true)\<close> for a chunk that \<^verbatim>\<open>reader.read()\<close> delivered.\<close>

definition handle_chunk ::
  "(string \<Rightarrow> json option) \<Rightarrow> 'o callback option \<Rightarrow> ('d \<Rightarrow> 'b \<Rightarrow> string \<times> 'd) \<Rightarrow> 'b list
     \<Rightarrow> ('d, 'o) stream_state \<Rightarrow> ('d, 'o) stream_state" where
  "handle_chunk parse onEvent step chunk st =
     (let (txt, d') = decode step (decoder st) chunk;
          lines = split_nl (buffer st @ txt)
      in \<lparr>buffer = pop_or_empty lines, decoder = d',
          agg = fold (handle_line parse onEvent) (butlast lines) (agg st)\<rparr>)"

section \<open>The byte source and the read loop\<close>

text \<open>
  A response body is read chunk by chunk. After its last chunk the source closes
  (\<^verbatim>\<open>done\<close>), fails (\<^verbatim>\<open>reader.read()\<close> rejects), or stays open without ever delivering
  anything again (\<^verbatim>\<open>reader.read()\<close> never settles).
\<close>

datatype ending = Closed | Errored exn | Stalled

record 'b body_source =
  chunks :: "'b list list"
  ending :: ending

text \<open>How the outer \<^verbatim>\<open>try\<close> block ends: normally, by an exception, or not at all.\<close>

datatype completion = Completes | Throws exn | Never

fun read_loop ::
  "(string \<Rightarrow> json option) \<Rightarrow> 'o callback option \<Rightarrow> ('d \<Rightarrow> 'b \<Rightarrow> string \<times> 'd) \<Rightarrow> 'b list list
     \<Rightarrow> ending \<Rightarrow> ('d, 'o) stream_state \<Rightarrow> completion \<times> ('d, 'o) stream_state" where
  "read_loop parse onEvent step [] e st =
     (case e of
        Closed \<Rightarrow> (Completes, st)
      | Errored x \<Rightarrow> (Throws x, st)
      | Stalled \<Rightarrow> (Never, st))"
| "read_loop parse onEvent step (c # cs) e st =
     read_loop parse onEvent step cs e (handle_chunk parse onEvent step c st)"

section \<open>Transport: \<^verbatim>\<open>ApiClient.request\<close>\<close>

text \<open>
  A response as the client sees it: \<open>json_body\<close> is what \<^verbatim>\<open>response.json()\<close> resolves to
  (\<open>None\<close> when it rejects), \<open>body\<close> is \<^verbatim>\<open>response.body\<close> (\<open>None\<close> for \<^verbatim>\<open>null\<close>).
  \<^verbatim>\<open>fetch\<close> settles with a response, rejects with a failure, or is still pending when the
  deadline timer fires (\<open>Overdue\<close>); the timer's callback aborts it and it rejects with
  an \<open>AbortError\<close>.
\<close>

record 'b response =
  ok :: bool
  status :: nat
  statusText :: string
  json_body :: "json option"
  body :: "'b body_source option"

datatype 'b fetch_outcome = Responds "'b response" | Fails exn | Overdue

datatype 'b reply = Streamed "'b response" | Parsed js_value

text \<open>The handle of \<^verbatim>\<open>setTimeout\<close>: pending, run, or cancelled by \<^verbatim>\<open>clearTimeout\<close>.\<close>

datatype timer = Armed | Fired | Cleared

definition clearTimeout :: "timer \<Rightarrow> timer" where
  "clearTimeout t = (if t = Armed then Cleared else t)"

text \<open>
  \<^verbatim>\<open>parseError\<close> builds the error for a non-2xx response. \<open>Inr\<close> is the error it returns;
  \<open>Inl\<close> is an exception it throws itself (the body was the JSON \<^verbatim>\<open>null\<close>).
\<close>

definition parseError :: "'b response \<Rightarrow> exn + exn" where
  "parseError response =
     (let errorData =
            (case json_body response of
               Some j \<Rightarrow> j
             | None \<Rightarrow> JObj [(''error'', JStr (statusText response)),
                              (''message'', JStr (''HTTP '' @ show_nat (status response)))])
      in case member (Some errorData) ''message'' of
           Inl e \<Rightarrow> Inl e
         | Inr m \<Rightarrow>
             Inr (ApiClientError (or_js m (own_prop errorData ''error'')) (status response)
                    (own_prop errorData ''code'') (own_prop errorData ''details'')))"

text \<open>
  The \<^verbatim>\<open>try\<close> block of \<^verbatim>\<open>request\<close>, from \<^verbatim>\<open>await fetch\<close> on. It also returns the timer,
  which \<^verbatim>\<open>clearTimeout\<close> cancels as soon as \<^verbatim>\<open>fetch\<close> has settled with a response.
\<close>

definition request_try :: "bool \<Rightarrow> 'b fetch_outcome \<Rightarrow> (exn + 'b reply) \<times> timer" where
  "request_try stream net =
     (case net of
        Overdue \<Rightarrow> (Inl AbortError, Fired)
      | Fails e \<Rightarrow> (Inl e, Armed)
      | Responds response \<Rightarrow>
          (let t = clearTimeout Armed in
           if stream then
             (if \<not> ok response then
                (case parseError response of Inl e \<Rightarrow> (Inl e, t) | Inr error \<Rightarrow> (Inl error, t))
              else (Inr (Streamed response), t))
           else if \<not> ok response then
             (case parseError response of Inl e \<Rightarrow> (Inl e, t) | Inr error \<Rightarrow> (Inl error, t))
           else if status response = 204 then (Inr (Parsed None), t)
           else
             (case json_body response of
                None \<Rightarrow> (Inl (SyntaxError ''Unexpected end of JSON input''), t)
              | Some data \<Rightarrow> (Inr (Parsed (Some data)), t))))"

text \<open>The \<^verbatim>\<open>catch\<close> clause of \<^verbatim>\<open>request\<close>: what is thrown instead of \<open>error\<close>.\<close>

definition request_catch :: "nat \<Rightarrow> exn \<Rightarrow> exn" where
  "request_catch timeout error =
     (case error of
        ApiClientError m s c d \<Rightarrow> error
      | AbortError \<Rightarrow>
          ApiClientError (Some (JStr (''Request timeout after '' @ show_nat timeout @ ''ms'')))
            408 (Some (JStr ''TIMEOUT'')) None
      | Error m \<Rightarrow> ApiClientError m 500 (Some (JStr ''NETWORK_ERROR'')) None
      | SyntaxError m \<Rightarrow> ApiClientError (Some (JStr m)) 500 (Some (JStr ''NETWORK_ERROR'')) None
      | TypeError m \<Rightarrow> ApiClientError (Some (JStr m)) 500 (Some (JStr ''NETWORK_ERROR'')) None
      | Thrown v \<Rightarrow>
          ApiClientError (Some (JStr ''Unknown error'')) 500 (Some (JStr ''NETWORK_ERROR'')) None)"

text \<open>
  \<^verbatim>\<open>request\<close>: \<open>default_timeout\<close> is \<^verbatim>\<open>this.timeout\<close>, \<open>timeout\<close> is \<^verbatim>\<open>options.timeout\<close>.
\<close>

definition request ::
  "nat \<Rightarrow> nat option \<Rightarrow> bool \<Rightarrow> 'b fetch_outcome \<Rightarrow> (exn + 'b reply) \<times> timer" where
  "request default_timeout timeout stream net =
     (let limit = (case timeout of Some t \<Rightarrow> t | None \<Rightarrow> default_timeout)
      in case request_try stream net of
           (Inr r, t) \<Rightarrow> (Inr r, t)
         | (Inl error, t) \<Rightarrow> (Inl (request_catch limit error), clearTimeout t))"

section \<open>Execution aggregator: \<^verbatim>\<open>ThreadsResource.sendMessage\<close>\<close>

datatype 'a outcome = Returned 'a | Raised exn | Hangs

record send_result =
  sm_content :: js_value
  sm_run :: js_value
  sm_events :: "json list"

text \<open>
  What a call leaves behind: its outcome, the locals and effects at the moment it ended,
  whether \<^verbatim>\<open>reader.releaseLock()\<close> ran, and the state of the deadline timer.
\<close>

record ('d, 'o) report =
  outcome :: "send_result outcome"
  final :: "('d, 'o) stream_state"
  released :: bool
  deadline :: timer

definition initial_state :: "'d \<Rightarrow> 'o \<Rightarrow> ('d, 'o) stream_state" where
  "initial_state d0 ob =
     \<lparr>buffer = [], decoder = d0,
      agg = \<lparr>events = [], finalContent = Some (JStr []), runDetails = None, warned = [],
             delivered = [], observer = ob\<rparr>\<rparr>"

text \<open>
  \<open>d0\<close> is the fresh \<^verbatim>\<open>TextDecoder\<close>, \<open>ob\<close> the observer's state at the call,
  \<open>timeout\<close> is \<^verbatim>\<open>options.timeout\<close> and \<open>default_timeout\<close> the client's configured default,
  \<open>net\<close> is what the network does with the request.
\<close>

definition sendMessage ::
  "(string \<Rightarrow> json option) \<Rightarrow> ('d \<Rightarrow> 'b \<Rightarrow> string \<times> 'd) \<Rightarrow> 'd \<Rightarrow> nat \<Rightarrow> 'o callback option \<Rightarrow> 'o
     \<Rightarrow> nat option \<Rightarrow> 'b fetch_outcome \<Rightarrow> ('d, 'o) report" where
  "sendMessage parse step d0 default_timeout onEvent ob timeout net =
     (let limit = (case timeout of None \<Rightarrow> 600000 | Some t \<Rightarrow> t);
          st0 = initial_state d0 ob
      in case request default_timeout (Some limit) True net of
           (Inl e, t) \<Rightarrow> \<lparr>outcome = Raised e, final = st0, released = False, deadline = t\<rparr>
         | (Inr (Parsed v), t) \<Rightarrow>
             \<lparr>outcome = Raised (Error (Some (JStr ''No response body''))), final = st0,
              released = False, deadline = t\<rparr>
         | (Inr (Streamed response), t) \<Rightarrow>
             (case body response of
                None \<Rightarrow>
                  \<lparr>outcome = Raised (Error (Some (JStr ''No response body''))), final = st0,
                   released = False, deadline = t\<rparr>
              | Some src \<Rightarrow>
                  (case read_loop parse onEvent step (chunks src) (ending src) st0 of
                     (Completes, st) \<Rightarrow>
                       \<lparr>outcome = Returned \<lparr>sm_content = finalContent (agg st),
                                            sm_run = runDetails (agg st),
                                            sm_events = events (agg st)\<rparr>,
                        final = st, released = True, deadline = t\<rparr>
                   | (Throws x, st) \<Rightarrow>
                       \<lparr>outcome = Raised x, final = st, released = True, deadline = t\<rparr>
                   | (Never, st) \<Rightarrow>
                       \<lparr>outcome = Hangs, final = st, released = False, deadline = t\<rparr>)))"

section \<open>Conversation orchestrator: \<^verbatim>\<open>ComputerAgentsClient.run\<close>\<close>

text \<open>
  The resource layer's records, with the fields the orchestrator reads or writes.
  An optional field is an \<open>option\<close>.
\<close>

record environment =
  env_id :: string
  env_name :: string
  env_isDefault :: "bool option"
  env_internetAccess :: "bool option"

record create_environment_params =
  cep_name :: string
  cep_internetAccess :: "bool option"
  cep_isDefault :: "bool option"

record thread =
  thread_id :: string
  thread_environmentId :: string

record 'o run_options =
  ro_environmentId :: "string option"
  ro_threadId :: "string option"
  ro_onEvent :: "'o callback option"
  ro_timeout :: "nat option"

record run_result =
  rr_content :: js_value
  rr_threadId :: string
  rr_run :: js_value

text \<open>
  The remote service answers each call from its own state \<open>'sv\<close>; a call of the resource
  layer resolves to a value or rejects with an exception. \<open>post_message\<close> is what the
  network does with the streamed \<^verbatim>\<open>POST /threads/:id/messages\<close>.
\<close>

record ('sv, 'b) server =
  list_environments :: "'sv \<Rightarrow> (exn + environment list) \<times> 'sv"
  create_environment :: "create_environment_params \<Rightarrow> 'sv \<Rightarrow> (exn + environment) \<times> 'sv"
  create_thread :: "string \<Rightarrow> 'sv \<Rightarrow> (exn + thread) \<times> 'sv"
  post_message :: "string \<Rightarrow> string \<Rightarrow> 'sv \<Rightarrow> 'b fetch_outcome \<times> 'sv"

datatype api_call =
    ListEnvironments
  | CreateEnvironment create_environment_params
  | CreateThread string
  | SendMessage string string

text \<open>
  The client instance and its surroundings: \<open>defaultEnvironmentId\<close> is the private field
  \<^verbatim>\<open>_defaultEnvironmentId\<close> (\<open>None\<close> for \<^verbatim>\<open>null\<close>), \<open>remote\<close> the service's state,
  \<open>calls\<close> the calls made so far in order, \<open>onlooker\<close> the state of the caller's
  observer and \<open>console\<close> the lines warned about.
\<close>

record ('sv, 'o) world =
  defaultEnvironmentId :: "string option"
  remote :: 'sv
  calls :: "api_call list"
  onlooker :: 'o
  console :: "string list"

text \<open>Truthiness of an optional string: present and not empty.\<close>

definition truthy_str :: "string option \<Rightarrow> bool" where
  "truthy_str x = (case x of None \<Rightarrow> False | Some s \<Rightarrow> s \<noteq> [])"

text \<open>\<^verbatim>\<open>_ensureDefaultEnvironment\<close>, after the test of the cache.\<close>

definition resolveDefaultEnvironment ::
  "('sv, 'b) server \<Rightarrow> ('sv, 'o) world \<Rightarrow> (exn + string) \<times> ('sv, 'o) world" where
  "resolveDefaultEnvironment srv w =
     (let (listed, sv1) = list_environments srv (remote w);
          w1 = w\<lparr>remote := sv1, calls := calls w @ [ListEnvironments]\<rparr>
      in case listed of
           Inl e \<Rightarrow> (Inl e, w1)
         | Inr environments \<Rightarrow>
             (case find (\<lambda>e. env_isDefault e = Some True) environments of
                Some environment \<Rightarrow>
                  (Inr (env_id environment),
                   w1\<lparr>defaultEnvironmentId := Some (env_id environment)\<rparr>)
              | None \<Rightarrow>
                  (let params = \<lparr>cep_name = ''default'', cep_internetAccess = Some True,
                                 cep_isDefault = Some True\<rparr>;
                       (created, sv2) = create_environment srv params (remote w1);
                       w2 = w1\<lparr>remote := sv2, calls := calls w1 @ [CreateEnvironment params]\<rparr>
                   in case created of
                        Inl e \<Rightarrow> (Inl e, w2)
                      | Inr environment \<Rightarrow>
                          (Inr (env_id environment),
                           w2\<lparr>defaultEnvironmentId := Some (env_id environment)\<rparr>))))"

definition ensureDefaultEnvironment ::
  "('sv, 'b) server \<Rightarrow> ('sv, 'o) world \<Rightarrow> (exn + string) \<times> ('sv, 'o) world" where
  "ensureDefaultEnvironment srv w =
     (if truthy_str (defaultEnvironmentId w) then (Inr (the (defaultEnvironmentId w)), w)
      else resolveDefaultEnvironment srv w)"

text \<open>\<^verbatim>\<open>options.environmentId || await this._ensureDefaultEnvironment()\<close>\<close>

definition run_environment ::
  "('sv, 'b) server \<Rightarrow> 'o run_options \<Rightarrow> ('sv, 'o) world \<Rightarrow> (exn + string) \<times> ('sv, 'o) world" where
  "run_environment srv options w =
     (if truthy_str (ro_environmentId options) then (Inr (the (ro_environmentId options)), w)
      else ensureDefaultEnvironment srv w)"

text \<open>\<^verbatim>\<open>let threadId = options.threadId; if (!threadId) { ... threads.create ... }\<close>\<close>

definition run_thread ::
  "('sv, 'b) server \<Rightarrow> 'o run_options \<Rightarrow> string \<Rightarrow> ('sv, 'o) world
     \<Rightarrow> (exn + string) \<times> ('sv, 'o) world" where
  "run_thread srv options environmentId w =
     (if truthy_str (ro_threadId options) then (Inr (the (ro_threadId options)), w)
      else
        (let (created, sv1) = create_thread srv environmentId (remote w);
             w1 = w\<lparr>remote := sv1, calls := calls w @ [CreateThread environmentId]\<rparr>
         in case created of
              Inl e \<Rightarrow> (Inl e, w1)
            | Inr thread \<Rightarrow> (Inr (thread_id thread), w1)))"

text \<open>
  \<^verbatim>\<open>run(task, options)\<close>. \<open>parse\<close>, \<open>step\<close> and \<open>d0\<close> are the platform's JSON parser and
  text decoder, \<open>default_timeout\<close> is the client's configured request timeout.
\<close>

definition run ::
  "(string \<Rightarrow> json option) \<Rightarrow> ('d \<Rightarrow> 'b \<Rightarrow> string \<times> 'd) \<Rightarrow> 'd \<Rightarrow> nat \<Rightarrow> ('sv, 'b) server
     \<Rightarrow> string \<Rightarrow> 'o run_options \<Rightarrow> ('sv, 'o) world \<Rightarrow> run_result outcome \<times> ('sv, 'o) world" where
  "run parse step d0 default_timeout srv task options w =
     (case run_environment srv options w of
        (Inl e, w1) \<Rightarrow> (Raised e, w1)
      | (Inr environmentId, w1) \<Rightarrow>
          (case run_thread srv options environmentId w1 of
             (Inl e, w2) \<Rightarrow> (Raised e, w2)
           | (Inr threadId, w2) \<Rightarrow>
               (let (net, sv3) = post_message srv threadId task (remote w2);
                    w3 = w2\<lparr>remote := sv3, calls := calls w2 @ [SendMessage threadId task]\<rparr>;
                    rep = sendMessage parse step d0 default_timeout (ro_onEvent options)
                            (onlooker w3) (ro_timeout options) net;
                    w4 = w3\<lparr>onlooker := observer (agg (final rep)),
                            console := console w3 @ warned (agg (final rep))\<rparr>
                in case outcome rep of
                     Returned result \<Rightarrow>
                       (Returned \<lparr>rr_content = sm_content result, rr_threadId = threadId,
                                  rr_run = sm_run result\<rparr>, w4)
                   | Raised e \<Rightarrow> (Raised e, w4)
                   | Hangs \<Rightarrow> (Hangs, w4))))"

section \<open>Reference notions for stating the properties\<close>

text \<open>
  The lines of a text that are complete (terminated by a line feed), and the events of a
  text: the payloads of its complete \<^verbatim>\<open>data: \<close> lines that parse, in wire order.
\<close>

definition complete_lines :: "string \<Rightarrow> string list" where
  "complete_lines text = butlast (split_nl text)"

definition frame_of :: "(string \<Rightarrow> json option) \<Rightarrow> string \<Rightarrow> json option" where
  "frame_of parse line = (if startsWith line ''data: '' then parse (slice line 6) else None)"

definition frames :: "(string \<Rightarrow> json option) \<Rightarrow> string \<Rightarrow> json list" where
  "frames parse text = List.map_filter (frame_of parse) (complete_lines text)"

text \<open>The text a byte stream decodes to, whatever its division into chunks.\<close>

definition decoded :: "('d \<Rightarrow> 'b \<Rightarrow> string \<times> 'd) \<Rightarrow> 'd \<Rightarrow> 'b list \<Rightarrow> string" where
  "decoded step d0 bytes = fst (decode step d0 bytes)"

text \<open>The discriminator of an event, and the event's payloads the aggregator captures.\<close>

definition event_type :: "json \<Rightarrow> js_value" where
  "event_type d = own_prop d ''type''"

definition has_type :: "string \<Rightarrow> json \<Rightarrow> bool" where
  "has_type t d = (event_type d = Some (JStr t))"

definition response_content :: "json \<Rightarrow> js_value" where
  "response_content d = opt_member (own_prop d ''response'') ''content''"

text \<open>A \<^verbatim>\<open>response.completed\<close> event as declared: its \<^verbatim>\<open>response.content\<close> is a string.\<close>

definition carries_text :: "json \<Rightarrow> bool" where
  "carries_text d = (case response_content d of Some (JStr c) \<Rightarrow> True | _ \<Rightarrow> False)"

text \<open>The discriminators the wire format defines.\<close>

definition recognized :: "json \<Rightarrow> bool" where
  "recognized d =
     (event_type d \<in> set (map (\<lambda>t. Some (JStr t))
        [''response.started'', ''response.item.completed'', ''response.completed'',
         ''stream.completed'', ''stream.error'']))"

text \<open>
  The course of a call as the observer shapes it. What the observer does with an event
  depends on the log and on its own state at that moment. \<open>effect_of\<close> is what a call of
  the observer, if there is one, does with event \<open>d\<close> at a moment \<open>(log, state)\<close>; from it:
  whether the observer returns normally, the event as the observer leaves it, the moment
  afterwards, and a captured value as the call leaves it. \<open>reached\<close> is the moment after a
  sequence of events.
\<close>

definition moment :: "'o aggregate \<Rightarrow> json list \<times> 'o" where
  "moment a = (events a, observer a)"

definition effect_of :: "'o callback option \<Rightarrow> json \<Rightarrow> json list \<times> 'o \<Rightarrow> 'o effect" where
  "effect_of onEvent d v =
     (case onEvent of
        None \<Rightarrow>
          \<lparr>ef_thrown = None, ef_event = d, ef_edits = Map.empty, ef_touch = (\<lambda>x. x),
           ef_state = snd v\<rparr>
      | Some f \<Rightarrow> f d (fst v) (snd v))"

definition returns_at :: "'o callback option \<Rightarrow> json \<Rightarrow> json list \<times> 'o \<Rightarrow> bool" where
  "returns_at onEvent d v = (ef_thrown (effect_of onEvent d v) = None)"

definition left_as :: "'o callback option \<Rightarrow> json \<Rightarrow> json list \<times> 'o \<Rightarrow> json" where
  "left_as onEvent d v = ef_event (effect_of onEvent d v)"

definition advance :: "'o callback option \<Rightarrow> json \<Rightarrow> json list \<times> 'o \<Rightarrow> json list \<times> 'o" where
  "advance onEvent d v =
     (apply_edits (ef_edits (effect_of onEvent d v)) (fst v) @ [ef_event (effect_of onEvent d v)],
      ef_state (effect_of onEvent d v))"

definition kept :: "'o callback option \<Rightarrow> json \<Rightarrow> json list \<times> 'o \<Rightarrow> js_value \<Rightarrow> js_value" where
  "kept onEvent d v c = in_place (ef_touch (effect_of onEvent d v)) c"

definition reached :: "'o callback option \<Rightarrow> json list \<Rightarrow> json list \<times> 'o \<Rightarrow> json list \<times> 'o" where
  "reached onEvent evs v = fold (advance onEvent) evs v"

text \<open>A value that no change in place can reach.\<close>

definition immune :: "js_value \<Rightarrow> bool" where
  "immune v = (case v of Some (JObj kvs) \<Rightarrow> False | Some (JArr xs) \<Rightarrow> False | _ \<Rightarrow> True)"

text \<open>
  Over a sequence of events, from a given moment: the observer leaves each event as it
  received it (\<open>untouched\<close>); the observer changes nothing in the log at all
  (\<open>unedited\<close>); and the events that go on to classification, namely those on which the
  observer returns normally, as it leaves them (\<open>classified\<close>).
\<close>

fun untouched :: "'o callback option \<Rightarrow> json list \<Rightarrow> json list \<times> 'o \<Rightarrow> bool" where
  "untouched onEvent [] v = True"
| "untouched onEvent (d # ds) v =
     (left_as onEvent d v = d \<and> untouched onEvent ds (advance onEvent d v))"

fun unedited :: "'o callback option \<Rightarrow> json list \<Rightarrow> json list \<times> 'o \<Rightarrow> bool" where
  "unedited onEvent [] v = True"
| "unedited onEvent (d # ds) v =
     (fst (advance onEvent d v) = fst v @ [d] \<and> unedited onEvent ds (advance onEvent d v))"

fun classified :: "'o callback option \<Rightarrow> json list \<Rightarrow> json list \<times> 'o \<Rightarrow> json list" where
  "classified onEvent [] v = []"
| "classified onEvent (d # ds) v =
     (if returns_at onEvent d v then [left_as onEvent d v] else []) @
     classified onEvent ds (advance onEvent d v)"

text \<open>
  The captured content and the captured run after a sequence of events, from a given
  moment and given values: an event that goes on to classification with the type in
  question sets the value, and every call of the observer may change it in place.
\<close>

fun content_after ::
  "'o callback option \<Rightarrow> json list \<Rightarrow> json list \<times> 'o \<Rightarrow> js_value \<Rightarrow> js_value" where
  "content_after onEvent [] v c = c"
| "content_after onEvent (d # ds) v c =
     content_after onEvent ds (advance onEvent d v)
       (if returns_at onEvent d v \<and> has_type ''response.completed'' (left_as onEvent d v)
        then or_js (response_content (left_as onEvent d v)) (Some (JStr []))
        else kept onEvent d v c)"

fun run_after ::
  "'o callback option \<Rightarrow> json list \<Rightarrow> json list \<times> 'o \<Rightarrow> js_value \<Rightarrow> js_value" where
  "run_after onEvent [] v r = r"
| "run_after onEvent (d # ds) v r =
     run_after onEvent ds (advance onEvent d v)
       (if returns_at onEvent d v \<and> has_type ''stream.completed'' (left_as onEvent d v)
        then own_prop (left_as onEvent d v) ''run''
        else kept onEvent d v r)"

text \<open>The client's own error class, as callers test it (\<^verbatim>\<open>error instanceof ApiClientError\<close>).\<close>

definition is_ApiClientError :: "exn \<Rightarrow> bool" where
  "is_ApiClientError e = (case e of ApiClientError m s c d \<Rightarrow> True | _ \<Rightarrow> False)"

text \<open>The variables \<^verbatim>\<open>sendMessage\<close> ends with when it has read a whole body.\<close>

definition aggregated ::
  "(string \<Rightarrow> json option) \<Rightarrow> 'o callback option \<Rightarrow> ('d \<Rightarrow> 'b \<Rightarrow> string \<times> 'd) \<Rightarrow> 'd \<Rightarrow> 'o
     \<Rightarrow> 'b body_source \<Rightarrow> 'o aggregate" where
  "aggregated parse onEvent step d0 ob src =
     fold (handle_line parse onEvent) (complete_lines (decoded step d0 (concat (chunks src))))
       (agg (initial_state d0 ob))"

text \<open>How often the environments were listed: once per resolution of the default.\<close>

definition resolutions :: "api_call list \<Rightarrow> nat" where
  "resolutions cs = length (filter (\<lambda>c. c = ListEnvironments) cs)"

text \<open>
  A successful streamed response with the given chunks, and an observer that records
  the events it is given.
\<close>

definition streamed :: "'b list list \<Rightarrow> ending \<Rightarrow> 'b response" where
  "streamed cs e =
     \<lparr>ok = True, status = 200, statusText = ''OK'', json_body = None,
      body = Some \<lparr>chunks = cs, ending = e\<rparr>\<rparr>"

definition recorder :: "json list callback" where
  "recorder d earlier seen =
     \<lparr>ef_thrown = None, ef_event = d, ef_edits = Map.empty, ef_touch = (\<lambda>x. x),
      ef_state = seen @ [d]\<rparr>"

section \<open>A concrete platform for examples\<close>

text \<open>
  A decoder for 7-bit text: every byte is one character and nothing is ever pending.
\<close>

definition ascii_step :: "unit \<Rightarrow> char \<Rightarrow> string \<times> unit" where
  "ascii_step d c = ([c], d)"

text \<open>
  \<^verbatim>\<open>JSON.parse\<close> on a fragment of JSON: \<^verbatim>\<open>null\<close>, \<^verbatim>\<open>true\<close>, \<^verbatim>\<open>false\<close>, unsigned integers
  (small enough to be exact as a number), strings without escapes, arrays and objects.
  Anything else is rejected, so a text this parser accepts is parsed by \<^verbatim>\<open>JSON.parse\<close> to
  the same value, and a text of the fragment it rejects is rejected by \<^verbatim>\<open>JSON.parse\<close>
  too. The first argument bounds the recursion; twice the length of the text is enough.
  The properties below are stated for an arbitrary parser; this one serves the examples.
\<close>

definition is_json_ws :: "char \<Rightarrow> bool" where
  "is_json_ws c = (c \<in> set [CHR 0x20, CHR 0x09, CHR 0x0A, CHR 0x0D])"

definition skip_ws :: "string \<Rightarrow> string" where
  "skip_ws s = dropWhile is_json_ws s"

definition is_digit :: "char \<Rightarrow> bool" where
  "is_digit c = (c \<in> set ''0123456789'')"

definition digits_value :: "string \<Rightarrow> nat" where
  "digits_value ds = foldl (\<lambda>a c. 10 * a + (of_char c - 48)) 0 ds"

fun string_body :: "string \<Rightarrow> (string \<times> string) option" where
  "string_body [] = None"
| "string_body (c # cs) =
     (if c = CHR 0x22 then Some ([], cs)
      else if c = CHR 0x5C \<or> (of_char c :: nat) < 32 then None
      else (case string_body cs of None \<Rightarrow> None | Some (s, r) \<Rightarrow> Some (c # s, r)))"

fun json_value :: "nat \<Rightarrow> string \<Rightarrow> (json \<times> string) option"
  and json_elements :: "nat \<Rightarrow> string \<Rightarrow> (json list \<times> string) option"
  and json_members :: "nat \<Rightarrow> string \<Rightarrow> ((string \<times> json) list \<times> string) option" where
  "json_value 0 s = None"
| "json_value (Suc n) s =
     (case skip_ws s of
        [] \<Rightarrow> None
      | c # cs \<Rightarrow>
          if c = CHR 0x22 then
            (case string_body cs of None \<Rightarrow> None | Some (str, r) \<Rightarrow> Some (JStr str, r))
          else if c = CHR ''['' then
            (if take 1 (skip_ws cs) = '']'' then Some (JArr [], drop 1 (skip_ws cs))
             else (case json_elements n cs of None \<Rightarrow> None | Some (vs, r) \<Rightarrow> Some (JArr vs, r)))
          else if c = CHR ''{'' then
            (if take 1 (skip_ws cs) = ''}'' then Some (JObj [], drop 1 (skip_ws cs))
             else (case json_members n cs of None \<Rightarrow> None | Some (kvs, r) \<Rightarrow> Some (JObj kvs, r)))
          else if take 4 (c # cs) = ''null'' then Some (JNull, drop 3 cs)
          else if take 4 (c # cs) = ''true'' then Some (JBool True, drop 3 cs)
          else if take 5 (c # cs) = ''false'' then Some (JBool False, drop 4 cs)
          else if is_digit c then
            (let ds = takeWhile is_digit (c # cs)
             in if c = CHR ''0'' \<and> length ds > 1 then None
                else Some (JNum (real (digits_value ds)), dropWhile is_digit cs))
          else None)"
| "json_elements 0 s = None"
| "json_elements (Suc n) s =
     (case json_value n s of
        None \<Rightarrow> None
      | Some (v, r) \<Rightarrow>
          (case skip_ws r of
             [] \<Rightarrow> None
           | c # cs \<Rightarrow>
               if c = CHR '','' then
                 (case json_elements n cs of None \<Rightarrow> None | Some (vs, r') \<Rightarrow> Some (v # vs, r'))
               else if c = CHR '']'' then Some ([v], cs)
               else None))"
| "json_members 0 s = None"
| "json_members (Suc n) s =
     (case skip_ws s of
        [] \<Rightarrow> None
      | q # s1 \<Rightarrow>
          if q \<noteq> CHR 0x22 then None
          else
            (case string_body s1 of
               None \<Rightarrow> None
             | Some (k, s2) \<Rightarrow>
                 (case skip_ws s2 of
                    [] \<Rightarrow> None
                  | colon # s3 \<Rightarrow>
                      if colon \<noteq> CHR '':'' then None
                      else
                        (case json_value n s3 of
                           None \<Rightarrow> None
                         | Some (v, s4) \<Rightarrow>
                             (case skip_ws s4 of
                                [] \<Rightarrow> None
                              | c # cs \<Rightarrow>
                                  if c = CHR '','' then
                                    (case json_members n cs of
                                       None \<Rightarrow> None
                                     | Some (kvs, r) \<Rightarrow> Some ((k, v) # kvs, r))
                                  else if c = CHR ''}'' then Some ([(k, v)], cs)
                                  else None)))))"

definition JSON_parse :: "string \<Rightarrow> json option" where
  "JSON_parse s =
     (case json_value (2 * length s + 2) s of
        None \<Rightarrow> None
      | Some (v, r) \<Rightarrow> if skip_ws r = [] then Some v else None)"

section \<open>Streams, observers and a service for examples\<close>

text \<open>
  Two streams: a complete run of four events; a run in which an error event is followed by
  more events.
\<close>

definition scenario :: string where
  \<open>scenario =
     ''data: {"type":"response.started"}\<newline>\<newline>'' @
     ''data: {"type":"response.item.completed","item":{"type":"text","content":"Hi"}}\<newline>\<newline>'' @
     ''data: {"type":"response.completed","response":{"content":"Hi"}}\<newline>\<newline>'' @
     ''data: {"type":"stream.completed","run":{"id":"run_1","status":"success","tokens":{"input":10,"output":2}}}\<newline>\<newline>''\<close>

definition failing_scenario :: string where
  \<open>failing_scenario =
     ''data: {"type":"response.started"}\<newline>\<newline>'' @
     ''data: {"type":"stream.error","error":"agent_failed","message":"boom"}\<newline>\<newline>'' @
     ''data: {"type":"response.completed","response":{"content":"after"}}\<newline>\<newline>''\<close>

text \<open>An observer that throws on the \<^verbatim>\<open>stream.completed\<close> event and on no other.\<close>

definition objector :: "unit callback" where
  "objector d earlier s =
     \<lparr>ef_thrown = (if has_type ''stream.completed'' d
                   then Some (Error (Some (JStr ''observer failed''))) else None),
      ef_event = d, ef_edits = Map.empty, ef_touch = (\<lambda>x. x), ef_state = s\<rparr>"

text \<open>An observer that throws the first time it is called, and never again.\<close>

definition fussy :: "nat callback" where
  "fussy d earlier n =
     \<lparr>ef_thrown = (if n = 0 then Some (Error (Some (JStr ''not ready''))) else None),
      ef_event = d, ef_edits = Map.empty, ef_touch = (\<lambda>x. x), ef_state = Suc n\<rparr>"

text \<open>
  \<^verbatim>\<open>obj[k] = v\<close> on an event, and an observer that does \<^verbatim>\<open>e.type = 'response.completed'\<close>
  to every event object it is given and returns; other values it leaves alone.
\<close>

definition assign :: "string \<Rightarrow> json \<Rightarrow> json \<Rightarrow> json" where
  "assign k v d =
     (case d of
        JObj kvs \<Rightarrow>
          JObj (if k \<in> set (map fst kvs)
                then map (\<lambda>(k', v'). if k' = k then (k', v) else (k', v')) kvs
                else kvs @ [(k, v)])
      | _ \<Rightarrow> d)"

definition retyper :: "unit callback" where
  "retyper d earlier s =
     \<lparr>ef_thrown = None, ef_event = assign ''type'' (JStr ''response.completed'') d,
      ef_edits = Map.empty, ef_touch = (\<lambda>x. x), ef_state = s\<rparr>"

text \<open>A successful response without a body, such as a \<^verbatim>\<open>204 No Content\<close>.\<close>

definition bodiless :: "char response" where
  "bodiless =
     \<lparr>ok = True, status = 204, statusText = ''No Content'', json_body = None, body = None\<rparr>"

text \<open>
  A service for the examples. Its state is the list of its environments and the number of
  threads created so far; it numbers what it creates, and answers every message with the
  four events of \<open>scenario\<close>.
\<close>

definition demo_server :: "(environment list \<times> nat, char) server" where
  "demo_server =
     \<lparr>list_environments = (\<lambda>s. (Inr (fst s), s)),
      create_environment = (\<lambda>p s.
        (let e = \<lparr>env_id = ''env_'' @ show_nat (length (fst s)), env_name = cep_name p,
                  env_isDefault = cep_isDefault p, env_internetAccess = cep_internetAccess p\<rparr>
         in (Inr e, (fst s @ [e], snd s)))),
      create_thread = (\<lambda>environmentId s.
        (Inr \<lparr>thread_id = ''thread_'' @ show_nat (snd s), thread_environmentId = environmentId\<rparr>,
         (fst s, Suc (snd s)))),
      post_message = (\<lambda>threadId content s. (Responds (streamed [scenario] Closed), s))\<rparr>"

text \<open>A fresh client facing a service in the given state, and options that set nothing.\<close>

definition fresh :: "'sv \<Rightarrow> 'o \<Rightarrow> ('sv, 'o) world" where
  "fresh sv ob =
     \<lparr>defaultEnvironmentId = None, remote = sv, calls = [], onlooker = ob, console = []\<rparr>"

definition no_options :: "'o run_options" where
  "no_options =
     \<lparr>ro_environmentId = None, ro_threadId = None, ro_onEvent = None, ro_timeout = None\<rparr>"

section \<open>Lines, chunks and the read loop\<close>

text \<open>
  Splitting a text that arrives in two parts: the complete lines of the first part, then
  the split of its trailing partial line followed by the second part.
\<close>

lemma split_nl_nonempty: "split_nl s \<noteq> []"
  by (induction s) (auto split: list.splits)

lemma split_nl_no_nl: "CHR 0x0A \<notin> set s \<Longrightarrow> split_nl s = [s]"
  by (induction s) auto

lemma last_split_nl_no_nl: "CHR 0x0A \<notin> set (last (split_nl s))"
  by (induction s) (auto split: list.splits simp: split_nl_nonempty)

lemma split_nl_append:
  "split_nl (a @ b) = butlast (split_nl a) @ split_nl (last (split_nl a) @ b)"
proof (induction a)
  case Nil
  then show ?case by simp
next
  case (Cons c a)
  show ?case
  proof (cases "c = CHR 0x0A")
    case True
    then show ?thesis using Cons by (simp add: split_nl_nonempty)
  next
    case False
    obtain l ls where s: "split_nl a = l # ls"
      using split_nl_nonempty[of a] by (cases "split_nl a") auto
    show ?thesis
    proof (cases ls)
      case Nil
      with s False Cons show ?thesis
        by (auto split: list.splits simp: split_nl_nonempty)
    next
      case (Cons l' ls')
      with s False Cons.IH show ?thesis
        by (auto split: list.splits simp: split_nl_nonempty)
    qed
  qed
qed

lemma decode_append:
  "decode step d (x @ y) =
     (let (t1, d1) = decode step d x; (t2, d2) = decode step d1 y in (t1 @ t2, d2))"
  by (induction x arbitrary: d) (auto split: prod.splits)


lemma handle_chunk_eq:
  "handle_chunk parse onEvent step chunk st =
     \<lparr>buffer = last (split_nl (buffer st @ fst (decode step (decoder st) chunk))),
      decoder = snd (decode step (decoder st) chunk),
      agg = fold (handle_line parse onEvent)
              (butlast (split_nl (buffer st @ fst (decode step (decoder st) chunk)))) (agg st)\<rparr>"
  by (simp add: handle_chunk_def Let_def pop_or_empty_def split_nl_nonempty split: prod.splits)

lemma handle_chunk_append:
  "handle_chunk parse onEvent step y (handle_chunk parse onEvent step x st) =
   handle_chunk parse onEvent step (x @ y) st"
proof -
  obtain t1 d1 where x: "decode step (decoder st) x = (t1, d1)" by (cases "decode step (decoder st) x")
  obtain t2 d2 where y: "decode step d1 y = (t2, d2)" by (cases "decode step d1 y")
  have xy: "decode step (decoder st) (x @ y) = (t1 @ t2, d2)"
    by (simp add: decode_append x y)
  define L1 where "L1 = split_nl (buffer st @ t1)"
  define L2 where "L2 = split_nl (last L1 @ t2)"
  have L2: "L2 \<noteq> []" by (simp add: L2_def split_nl_nonempty)
  have sp: "split_nl (buffer st @ t1 @ t2) = butlast L1 @ L2"
    using split_nl_append[of "buffer st @ t1" t2] by (simp add: L1_def L2_def)
  have s1: "handle_chunk parse onEvent step x st =
      \<lparr>buffer = last L1, decoder = d1,
       agg = fold (handle_line parse onEvent) (butlast L1) (agg st)\<rparr>"
    by (simp add: handle_chunk_eq x L1_def)
  have r: "handle_chunk parse onEvent step (x @ y) st =
      \<lparr>buffer = last L2, decoder = d2,
       agg = fold (handle_line parse onEvent) (butlast L1 @ butlast L2) (agg st)\<rparr>"
    using L2 by (simp add: handle_chunk_eq xy sp butlast_append)
  show ?thesis
    unfolding s1 r by (simp add: handle_chunk_eq y L2_def)
qed

lemma handle_chunk_Nil:
  "CHR 0x0A \<notin> set (buffer st) \<Longrightarrow> handle_chunk parse onEvent step [] st = st"
  by (simp add: handle_chunk_eq split_nl_no_nl)

lemma handle_chunk_buffer_no_nl:
  "CHR 0x0A \<notin> set (buffer (handle_chunk parse onEvent step c st))"
  by (simp add: handle_chunk_eq last_split_nl_no_nl)

lemma fold_handle_chunk_concat:
  "CHR 0x0A \<notin> set (buffer st) \<Longrightarrow>
   fold (handle_chunk parse onEvent step) cs st = handle_chunk parse onEvent step (concat cs) st"
proof (induction cs arbitrary: st)
  case Nil
  then show ?case by (simp add: handle_chunk_Nil)
next
  case (Cons c cs)
  have "fold (handle_chunk parse onEvent step) (c # cs) st =
        fold (handle_chunk parse onEvent step) cs (handle_chunk parse onEvent step c st)"
    by simp
  also have "\<dots> = handle_chunk parse onEvent step (concat cs) (handle_chunk parse onEvent step c st)"
    by (rule Cons.IH[OF handle_chunk_buffer_no_nl])
  also have "\<dots> = handle_chunk parse onEvent step (c @ concat cs) st"
    by (rule handle_chunk_append)
  finally show ?case by simp
qed

lemma read_loop_fold:
  "read_loop parse onEvent step cs e st =
     (case e of Closed \<Rightarrow> Completes | Errored x \<Rightarrow> Throws x | Stalled \<Rightarrow> Never,
      fold (handle_chunk parse onEvent step) cs st)"
  by (induction cs arbitrary: st) (auto split: ending.splits)

lemma read_loop_eq:
  "read_loop parse onEvent step cs e (initial_state d0 ob) =
     (case e of Closed \<Rightarrow> Completes | Errored x \<Rightarrow> Throws x | Stalled \<Rightarrow> Never,
      \<lparr>buffer = last (split_nl (decoded step d0 (concat cs))),
       decoder = snd (decode step d0 (concat cs)),
       agg = fold (handle_line parse onEvent) (complete_lines (decoded step d0 (concat cs)))
               (agg (initial_state d0 ob))\<rparr>)"
proof -
  have nl: "CHR 0x0A \<notin> set (buffer (initial_state d0 ob))"
    by (simp add: initial_state_def)
  show ?thesis
    unfolding read_loop_fold fold_handle_chunk_concat[OF nl] handle_chunk_eq
    by (simp add: complete_lines_def decoded_def initial_state_def)
qed

section \<open>What handling a line does\<close>

lemma apply_edits_length: "length (apply_edits edits xs) = length xs"
  by (simp add: apply_edits_def)

lemma apply_edits_empty: "apply_edits Map.empty xs = xs"
  by (simp add: apply_edits_def case_prod_unfold)

lemma in_place_immune: "immune c \<Longrightarrow> in_place f c = c"
  by (simp add: immune_def in_place_def split: option.splits json.splits)

lemma in_place_id: "in_place (\<lambda>x. x) c = c"
  by (simp add: in_place_def split: option.splits json.splits)

lemma effect_of_None:
  "returns_at None d v" "left_as None d v = d" "advance None d v = (fst v @ [d], snd v)"
  "kept None d v c = c"
  by (simp_all add: returns_at_def left_as_def advance_def kept_def effect_of_def
        apply_edits_empty in_place_id)

lemma effect_of_Some:
  "returns_at (Some g) d v = (ef_thrown (g d (fst v) (snd v)) = None)"
  "left_as (Some g) d v = ef_event (g d (fst v) (snd v))"
  "advance (Some g) d v =
     (apply_edits (ef_edits (g d (fst v) (snd v))) (fst v) @ [ef_event (g d (fst v) (snd v))],
      ef_state (g d (fst v) (snd v)))"
  "kept (Some g) d v c = in_place (ef_touch (g d (fst v) (snd v))) c"
  by (simp_all add: returns_at_def left_as_def advance_def kept_def effect_of_def)

lemma kept_immune: "immune c \<Longrightarrow> kept onEvent d v c = c"
  by (simp add: kept_def in_place_immune)

lemma advance_length: "length (fst (advance onEvent d v)) = Suc (length (fst v))"
  by (simp add: advance_def apply_edits_length)

lemma advance_last: "last (fst (advance onEvent d v)) = left_as onEvent d v"
  by (simp add: advance_def left_as_def)

text \<open>The variables after the observer has been called with an event just pushed.\<close>

lemma call_onEvent_pushed:
  "call_onEvent onEvent d (a\<lparr>events := events a @ [d]\<rparr>) =
     (ef_thrown (effect_of onEvent d (moment a)), left_as onEvent d (moment a),
      a\<lparr>events := fst (advance onEvent d (moment a)),
        finalContent := kept onEvent d (moment a) (finalContent a),
        runDetails := kept onEvent d (moment a) (runDetails a),
        delivered := (if onEvent = None then delivered a else delivered a @ [d]),
        observer := snd (advance onEvent d (moment a))\<rparr>)"
  by (cases onEvent)
     (simp_all add: call_onEvent_def effect_of_def left_as_def advance_def kept_def moment_def
        apply_edits_empty in_place_id Let_def)

lemma classify_kept:
  "events (snd (classify d a)) = events a"
  "delivered (snd (classify d a)) = delivered a"
  "observer (snd (classify d a)) = observer a"
  "warned (snd (classify d a)) = warned a"
  by (simp_all add: classify_def split: sum.splits)

lemma classify_finalContent:
  "finalContent (snd (classify d a)) =
     (if d \<noteq> JNull \<and> has_type ''response.completed'' d
      then or_js (response_content d) (Some (JStr [])) else finalContent a)"
  by (cases d) (simp_all add: classify_def member_def has_type_def event_type_def response_content_def)

lemma classify_runDetails:
  "runDetails (snd (classify d a)) =
     (if d \<noteq> JNull \<and> has_type ''stream.completed'' d then own_prop d ''run'' else runDetails a)"
  by (cases d) (simp_all add: classify_def member_def has_type_def event_type_def)

lemma classify_thrown:
  "fst (classify d a) =
     (if d = JNull then Some (TypeError ''Cannot read properties of null'')
      else if has_type ''stream.error'' d
      then Some (Error (or_js (own_prop d ''message'') (own_prop d ''error'')))
      else None)"
  by (cases d) (simp_all add: classify_def member_def has_type_def event_type_def)

lemma has_type_not_null: "has_type t d \<Longrightarrow> d \<noteq> JNull"
  by (auto simp: has_type_def event_type_def)

lemma try_frame_None:
  "parse (slice line 6) = None \<Longrightarrow> try_frame parse onEvent line a = (Some (SyntaxError ''Unexpected token''), a)"
  by (simp add: try_frame_def)

lemma try_frame_Some:
  "parse (slice line 6) = Some d \<Longrightarrow>
   try_frame parse onEvent line a =
     (case fst (call_onEvent onEvent d (a\<lparr>events := events a @ [d]\<rparr>)) of
        Some e \<Rightarrow> (Some e, snd (snd (call_onEvent onEvent d (a\<lparr>events := events a @ [d]\<rparr>))))
      | None \<Rightarrow> classify (fst (snd (call_onEvent onEvent d (a\<lparr>events := events a @ [d]\<rparr>))))
                  (snd (snd (call_onEvent onEvent d (a\<lparr>events := events a @ [d]\<rparr>)))))"
  by (simp add: try_frame_def Let_def case_prod_unfold)

lemma try_frame_returns:
  assumes "parse (slice line 6) = Some d" and "returns_at onEvent d (moment a)"
  shows "try_frame parse onEvent line a =
     classify (left_as onEvent d (moment a))
       (a\<lparr>events := fst (advance onEvent d (moment a)),
          finalContent := kept onEvent d (moment a) (finalContent a),
          runDetails := kept onEvent d (moment a) (runDetails a),
          delivered := (if onEvent = None then delivered a else delivered a @ [d]),
          observer := snd (advance onEvent d (moment a))\<rparr>)"
  using assms(2)
  by (simp add: try_frame_Some assms(1) call_onEvent_pushed returns_at_def)

lemma try_frame_thrown:
  assumes "parse (slice line 6) = Some d" and "ef_thrown (effect_of onEvent d (moment a)) = Some x"
  shows "try_frame parse onEvent line a =
     (Some x,
      a\<lparr>events := fst (advance onEvent d (moment a)),
        finalContent := kept onEvent d (moment a) (finalContent a),
        runDetails := kept onEvent d (moment a) (runDetails a),
        delivered := (if onEvent = None then delivered a else delivered a @ [d]),
        observer := snd (advance onEvent d (moment a))\<rparr>)"
  using assms(2)
  by (simp add: try_frame_Some assms(1) call_onEvent_pushed)

lemma observer_cases:
  "returns_at onEvent d v \<or> (\<exists>x. ef_thrown (effect_of onEvent d v) = Some x)"
  by (cases "ef_thrown (effect_of onEvent d v)") (simp_all add: returns_at_def)

lemma not_returns_at:
  "ef_thrown (effect_of onEvent d v) = Some x \<Longrightarrow> \<not> returns_at onEvent d v"
  by (simp add: returns_at_def)

lemma try_frame_fields:
  assumes p: "parse (slice line 6) = Some d"
  shows "events (snd (try_frame parse onEvent line a)) = fst (advance onEvent d (moment a))"
    and "delivered (snd (try_frame parse onEvent line a)) =
           (if onEvent = None then delivered a else delivered a @ [d])"
    and "observer (snd (try_frame parse onEvent line a)) = snd (advance onEvent d (moment a))"
    and "warned (snd (try_frame parse onEvent line a)) = warned a"
proof -
  consider (quiet) "returns_at onEvent d (moment a)"
    | (thrown) x where "ef_thrown (effect_of onEvent d (moment a)) = Some x"
    using observer_cases[of onEvent d "moment a"] by blast
  then have "events (snd (try_frame parse onEvent line a)) = fst (advance onEvent d (moment a)) \<and>
     delivered (snd (try_frame parse onEvent line a)) =
           (if onEvent = None then delivered a else delivered a @ [d]) \<and>
     observer (snd (try_frame parse onEvent line a)) = snd (advance onEvent d (moment a)) \<and>
     warned (snd (try_frame parse onEvent line a)) = warned a"
  proof cases
    case quiet
    then show ?thesis by (simp add: try_frame_returns p classify_kept)
  next
    case thrown
    then show ?thesis by (simp add: try_frame_thrown p)
  qed
  then show "events (snd (try_frame parse onEvent line a)) = fst (advance onEvent d (moment a))"
    and "delivered (snd (try_frame parse onEvent line a)) =
           (if onEvent = None then delivered a else delivered a @ [d])"
    and "observer (snd (try_frame parse onEvent line a)) = snd (advance onEvent d (moment a))"
    and "warned (snd (try_frame parse onEvent line a)) = warned a"
    by simp_all
qed

lemma try_frame_finalContent:
  assumes p: "parse (slice line 6) = Some d"
  shows "finalContent (snd (try_frame parse onEvent line a)) =
     (if returns_at onEvent d (moment a) \<and> has_type ''response.completed'' (left_as onEvent d (moment a))
      then or_js (response_content (left_as onEvent d (moment a))) (Some (JStr []))
      else kept onEvent d (moment a) (finalContent a))"
proof -
  consider (quiet) "returns_at onEvent d (moment a)"
    | (thrown) x where "ef_thrown (effect_of onEvent d (moment a)) = Some x"
    using observer_cases[of onEvent d "moment a"] by blast
  then show ?thesis
  proof cases
    case quiet
    then show ?thesis
      by (auto simp: try_frame_returns p classify_finalContent has_type_not_null)
  next
    case thrown
    then show ?thesis by (simp add: try_frame_thrown p not_returns_at)
  qed
qed

lemma try_frame_runDetails:
  assumes p: "parse (slice line 6) = Some d"
  shows "runDetails (snd (try_frame parse onEvent line a)) =
     (if returns_at onEvent d (moment a) \<and> has_type ''stream.completed'' (left_as onEvent d (moment a))
      then own_prop (left_as onEvent d (moment a)) ''run''
      else kept onEvent d (moment a) (runDetails a))"
proof -
  consider (quiet) "returns_at onEvent d (moment a)"
    | (thrown) x where "ef_thrown (effect_of onEvent d (moment a)) = Some x"
    using observer_cases[of onEvent d "moment a"] by blast
  then show ?thesis
  proof cases
    case quiet
    then show ?thesis
      by (auto simp: try_frame_returns p classify_runDetails has_type_not_null)
  next
    case thrown
    then show ?thesis by (simp add: try_frame_thrown p not_returns_at)
  qed
qed

lemma try_frame_thrown_iff:
  assumes p: "parse (slice line 6) = Some d"
  shows "fst (try_frame parse onEvent line a) = None \<longleftrightarrow>
         returns_at onEvent d (moment a) \<and> left_as onEvent d (moment a) \<noteq> JNull
         \<and> \<not> has_type ''stream.error'' (left_as onEvent d (moment a))"
proof -
  consider (quiet) "returns_at onEvent d (moment a)"
    | (thrown) x where "ef_thrown (effect_of onEvent d (moment a)) = Some x"
    using observer_cases[of onEvent d "moment a"] by blast
  then show ?thesis
  proof cases
    case quiet
    then show ?thesis
      by (auto simp: try_frame_returns p classify_thrown)
  next
    case thrown
    then show ?thesis by (simp add: try_frame_thrown p not_returns_at)
  qed
qed

text \<open>What handling one line does to each variable.\<close>

lemma handle_line_other:
  "\<not> startsWith line ''data: '' \<Longrightarrow> handle_line parse onEvent line a = a"
  by (simp add: handle_line_def)

lemma handle_line_unparsed:
  "startsWith line ''data: '' \<Longrightarrow> parse (slice line 6) = None \<Longrightarrow>
   handle_line parse onEvent line a =
     (if trim (slice line 6) \<noteq> [] then a\<lparr>warned := warned a @ [line]\<rparr> else a)"
  by (simp add: handle_line_def try_frame_None)

lemma handle_line_no_frame:
  "frame_of parse line = None \<Longrightarrow>
   events (handle_line parse onEvent line a) = events a \<and>
   delivered (handle_line parse onEvent line a) = delivered a \<and>
   observer (handle_line parse onEvent line a) = observer a \<and>
   finalContent (handle_line parse onEvent line a) = finalContent a \<and>
   runDetails (handle_line parse onEvent line a) = runDetails a"
  by (cases "startsWith line ''data: ''")
     (simp_all add: frame_of_def handle_line_other handle_line_unparsed)

lemma handle_line_data:
  "startsWith line ''data: '' \<Longrightarrow>
   handle_line parse onEvent line a =
     (if fst (try_frame parse onEvent line a) \<noteq> None \<and> trim (slice line 6) \<noteq> []
      then (snd (try_frame parse onEvent line a))
             \<lparr>warned := warned (snd (try_frame parse onEvent line a)) @ [line]\<rparr>
      else snd (try_frame parse onEvent line a))"
  by (auto simp: handle_line_def split: prod.splits option.splits)

lemma frame_of_SomeD:
  "frame_of parse line = Some d \<Longrightarrow> startsWith line ''data: '' \<and> parse (slice line 6) = Some d"
  by (auto simp: frame_of_def split: if_splits)

lemma handle_line_frame:
  assumes "frame_of parse line = Some d"
  shows "events (handle_line parse onEvent line a) = fst (advance onEvent d (moment a))"
    and "delivered (handle_line parse onEvent line a) =
           (if onEvent = None then delivered a else delivered a @ [d])"
    and "observer (handle_line parse onEvent line a) = snd (advance onEvent d (moment a))"
  using frame_of_SomeD[OF assms]
  by (simp_all add: handle_line_data try_frame_fields)

lemma handle_line_moment:
  "moment (handle_line parse onEvent line a) =
     (case frame_of parse line of None \<Rightarrow> moment a | Some d \<Rightarrow> advance onEvent d (moment a))"
  by (cases "frame_of parse line")
     (simp_all add: moment_def handle_line_no_frame handle_line_frame)

lemma handle_line_finalContent:
  "frame_of parse line = Some d \<Longrightarrow>
   finalContent (handle_line parse onEvent line a) =
     (if returns_at onEvent d (moment a) \<and> has_type ''response.completed'' (left_as onEvent d (moment a))
      then or_js (response_content (left_as onEvent d (moment a))) (Some (JStr []))
      else kept onEvent d (moment a) (finalContent a))"
  by (drule frame_of_SomeD) (simp add: handle_line_data try_frame_finalContent)

lemma handle_line_runDetails:
  "frame_of parse line = Some d \<Longrightarrow>
   runDetails (handle_line parse onEvent line a) =
     (if returns_at onEvent d (moment a) \<and> has_type ''stream.completed'' (left_as onEvent d (moment a))
      then own_prop (left_as onEvent d (moment a)) ''run''
      else kept onEvent d (moment a) (runDetails a))"
  by (drule frame_of_SomeD) (simp add: handle_line_data try_frame_runDetails)

lemma handle_line_warned:
  "frame_of parse line = Some d \<Longrightarrow>
   warned (handle_line parse onEvent line a) =
     (if (returns_at onEvent d (moment a) \<and> left_as onEvent d (moment a) \<noteq> JNull
          \<and> \<not> has_type ''stream.error'' (left_as onEvent d (moment a)))
         \<or> trim (slice line 6) = []
      then warned a else warned a @ [line])"
  by (drule frame_of_SomeD)
     (auto simp add: handle_line_data try_frame_fields try_frame_thrown_iff)

text \<open>What handling a sequence of lines does.\<close>

lemma fold_handle_line_moment:
  "moment (fold (handle_line parse onEvent) ls a) =
     reached onEvent (List.map_filter (frame_of parse) ls) (moment a)"
proof (induction ls arbitrary: a)
  case Nil
  then show ?case by (simp add: List.map_filter_simps reached_def)
next
  case (Cons l ls)
  then show ?case
    by (cases "frame_of parse l")
       (simp_all add: List.map_filter_simps handle_line_moment reached_def)
qed

lemma fold_handle_line_events:
  "events (fold (handle_line parse onEvent) ls a) =
     fst (reached onEvent (List.map_filter (frame_of parse) ls) (moment a))"
proof -
  have "events (fold (handle_line parse onEvent) ls a) =
          fst (moment (fold (handle_line parse onEvent) ls a))"
    by (simp add: moment_def)
  then show ?thesis by (simp only: fold_handle_line_moment)
qed

lemma fold_handle_line_delivered:
  "delivered (fold (handle_line parse onEvent) ls a) =
     (if onEvent = None then delivered a else delivered a @ List.map_filter (frame_of parse) ls)"
proof (induction ls arbitrary: a)
  case Nil
  then show ?case by (simp add: List.map_filter_simps)
next
  case (Cons l ls)
  then show ?case
    by (cases "frame_of parse l")
       (simp_all add: List.map_filter_simps handle_line_no_frame handle_line_frame)
qed

lemma fold_handle_line_finalContent:
  "finalContent (fold (handle_line parse onEvent) ls a) =
     content_after onEvent (List.map_filter (frame_of parse) ls) (moment a) (finalContent a)"
proof (induction ls arbitrary: a)
  case Nil
  then show ?case by (simp add: List.map_filter_simps)
next
  case (Cons l ls)
  then show ?case
    by (cases "frame_of parse l")
       (simp_all add: List.map_filter_simps handle_line_moment handle_line_no_frame
          handle_line_finalContent)
qed

lemma fold_handle_line_runDetails:
  "runDetails (fold (handle_line parse onEvent) ls a) =
     run_after onEvent (List.map_filter (frame_of parse) ls) (moment a) (runDetails a)"
proof (induction ls arbitrary: a)
  case Nil
  then show ?case by (simp add: List.map_filter_simps)
next
  case (Cons l ls)
  then show ?case
    by (cases "frame_of parse l")
       (simp_all add: List.map_filter_simps handle_line_moment handle_line_no_frame
          handle_line_runDetails)
qed

text \<open>The course of a call, event by event.\<close>

lemma reached_Cons: "reached onEvent (d # ds) v = reached onEvent ds (advance onEvent d v)"
  by (simp add: reached_def)

lemma reached_Nil: "reached onEvent [] v = v"
  by (simp add: reached_def)

lemma reached_length: "length (fst (reached onEvent evs v)) = length (fst v) + length evs"
  by (induction evs arbitrary: v) (simp_all add: reached_Nil reached_Cons advance_length)

lemma unedited_reached: "unedited onEvent evs v \<Longrightarrow> fst (reached onEvent evs v) = fst v @ evs"
  by (induction evs arbitrary: v) (simp_all add: reached_Nil reached_Cons)

lemma unedited_None: "unedited None evs v"
  by (induction evs arbitrary: v) (simp_all add: effect_of_None)

lemma untouched_None: "untouched None evs v"
  by (induction evs arbitrary: v) (simp_all add: effect_of_None)

lemma untouched_append:
  "untouched onEvent (xs @ ys) v =
     (untouched onEvent xs v \<and> untouched onEvent ys (reached onEvent xs v))"
  by (induction xs arbitrary: v) (simp_all add: reached_Nil reached_Cons)

lemma classified_untouched:
  "untouched onEvent evs v \<Longrightarrow> set (classified onEvent evs v) \<subseteq> set evs"
proof (induction evs arbitrary: v)
  case Nil
  then show ?case by simp
next
  case (Cons d ds)
  then have "set (classified onEvent ds (advance onEvent d v)) \<subseteq> set ds"
    by simp
  then show ?case
    using Cons.prems by (cases "returns_at onEvent d v") (simp_all add: subset_insertI2)
qed

lemma content_after_append:
  "content_after onEvent (xs @ ys) v c =
     content_after onEvent ys (reached onEvent xs v) (content_after onEvent xs v c)"
  by (induction xs arbitrary: v c) (simp_all add: reached_Nil reached_Cons)

lemma run_after_append:
  "run_after onEvent (xs @ ys) v r =
     run_after onEvent ys (reached onEvent xs v) (run_after onEvent xs v r)"
  by (induction xs arbitrary: v r) (simp_all add: reached_Nil reached_Cons)

lemma content_after_immune:
  "immune c \<Longrightarrow> \<forall>x\<in>set (classified onEvent evs v). \<not> has_type ''response.completed'' x \<Longrightarrow>
   content_after onEvent evs v c = c"
proof (induction evs arbitrary: v c)
  case Nil
  then show ?case by simp
next
  case (Cons d ds)
  have n: "\<not> (returns_at onEvent d v \<and> has_type ''response.completed'' (left_as onEvent d v))"
    using Cons.prems(2) by simp
  have "content_after onEvent ds (advance onEvent d v) c = c"
    using Cons.prems by (intro Cons.IH) simp_all
  then show ?case
    using n Cons.prems(1) by (auto simp add: kept_immune)
qed

section \<open>The aggregator as a whole\<close>

lemma request_streamed:
  "ok response \<Longrightarrow>
   request default_timeout timeout True (Responds response) = (Inr (Streamed response), Cleared)"
  by (simp add: request_def request_try_def clearTimeout_def)

lemma sendMessage_streamed:
  assumes "ok response" and "body response = Some src"
  shows "sendMessage parse step d0 default_timeout onEvent ob timeout (Responds response) =
     \<lparr>outcome =
        (case ending src of
           Closed \<Rightarrow>
             Returned \<lparr>sm_content = finalContent (aggregated parse onEvent step d0 ob src),
                       sm_run = runDetails (aggregated parse onEvent step d0 ob src),
                       sm_events = events (aggregated parse onEvent step d0 ob src)\<rparr>
         | Errored x \<Rightarrow> Raised x
         | Stalled \<Rightarrow> Hangs),
      final = \<lparr>buffer = last (split_nl (decoded step d0 (concat (chunks src)))),
                decoder = snd (decode step d0 (concat (chunks src))),
                agg = aggregated parse onEvent step d0 ob src\<rparr>,
      released = (ending src \<noteq> Stalled),
      deadline = Cleared\<rparr>"
  using assms
  by (simp add: sendMessage_def request_streamed read_loop_eq aggregated_def
        split: ending.splits)



lemma decoded_ascii: "decode ascii_step d s = (s, d)"
  by (induction s) (simp_all add: ascii_step_def)

lemma streamed_sel:
  "ok (streamed cs e)" "body (streamed cs e) = Some \<lparr>chunks = cs, ending = e\<rparr>"
  by (simp_all add: streamed_def)

text \<open>
  C4. However a byte stream is divided into chunks, the call ends in the same way with
  the same result, log, deliveries and diagnostics. The variables it ends with are those
  obtained by handling each complete line of the whole decoded text once, in order; the
  text after the last line feed is left in the buffer and never parsed.
\<close>

theorem chunk_boundaries_do_not_matter:
  assumes "ok response" and "body response = Some src" and "concat cs = concat (chunks src)"
  shows "sendMessage parse step d0 default_timeout onEvent ob timeout
           (Responds (response\<lparr>body := Some (src\<lparr>chunks := cs\<rparr>)\<rparr>)) =
         sendMessage parse step d0 default_timeout onEvent ob timeout (Responds response)
       \<and> agg (final (sendMessage parse step d0 default_timeout onEvent ob timeout (Responds response))) =
           fold (handle_line parse onEvent)
             (complete_lines (decoded step d0 (concat (chunks src)))) (agg (initial_state d0 ob))
       \<and> buffer (final (sendMessage parse step d0 default_timeout onEvent ob timeout (Responds response))) =
           last (split_nl (decoded step d0 (concat (chunks src))))"
proof -
  have 1: "ok (response\<lparr>body := Some (src\<lparr>chunks := cs\<rparr>)\<rparr>)"
    and 2: "body (response\<lparr>body := Some (src\<lparr>chunks := cs\<rparr>)\<rparr>) = Some (src\<lparr>chunks := cs\<rparr>)"
    using assms(1) by simp_all
  have 3: "aggregated parse onEvent step d0 ob (src\<lparr>chunks := cs\<rparr>) =
           aggregated parse onEvent step d0 ob src"
    by (simp add: aggregated_def assms(3))
  show ?thesis
    unfolding sendMessage_streamed[OF 1 2] sendMessage_streamed[OF assms(1,2)] 3
    by (simp add: assms(3) aggregated_def)
qed

theorem chunk_boundaries_do_not_matter_witness:
  \<open>sendMessage JSON_parse ascii_step () 60000 (Some recorder) [] None
      (Responds (streamed [''data: {"ty'', ''pe":"response.started"}\<newline>\<newline>''] Closed)) =
    sendMessage JSON_parse ascii_step () 60000 (Some recorder) [] None
      (Responds (streamed [''data: {"type":"response.started"}\<newline>\<newline>''] Closed))
   \<and> events (agg (final (sendMessage JSON_parse ascii_step () 60000 (Some recorder) [] None
      (Responds (streamed [''data: {"type":"response.started"}\<newline>\<newline>''] Closed))))) =
     [JObj [(''type'', JStr ''response.started'')]]\<close>
proof -
  let ?whole = \<open>''data: {"type":"response.started"}\<newline>\<newline>''\<close>
  let ?cs = \<open>[''data: {"ty'', ''pe":"response.started"}\<newline>\<newline>'']\<close>
  have c: "concat ?cs = concat (chunks \<lparr>chunks = [?whole], ending = Closed\<rparr>)"
    by simp
  have u: "(streamed [?whole] Closed)\<lparr>body := Some (\<lparr>chunks = [?whole], ending = Closed\<rparr>\<lparr>chunks := ?cs\<rparr>)\<rparr>
           = streamed ?cs Closed"
    by (simp add: streamed_def)
  have e: "events (fold (handle_line JSON_parse (Some recorder))
             (complete_lines (decoded ascii_step () (concat [?whole]))) (agg (initial_state () [])))
           = [JObj [(''type'', JStr ''response.started'')]]"
    by code_simp
  show ?thesis
    using chunk_boundaries_do_not_matter[OF streamed_sel c, of JSON_parse ascii_step "()" 60000
        "Some recorder" "[]" None]
    unfolding u using e by simp
qed

lemma moment_initial: "moment (agg (initial_state d0 ob)) = ([], ob)"
  by (simp add: moment_def initial_state_def)

lemma aggregated_events:
  "events (aggregated parse onEvent step d0 ob src) =
     fst (reached onEvent (frames parse (decoded step d0 (concat (chunks src)))) ([], ob))"
  by (simp add: aggregated_def fold_handle_line_events frames_def moment_initial)

lemma aggregated_delivered:
  "delivered (aggregated parse onEvent step d0 ob src) =
     (if onEvent = None then [] else frames parse (decoded step d0 (concat (chunks src))))"
  by (simp add: aggregated_def fold_handle_line_delivered frames_def initial_state_def)

lemma aggregated_finalContent:
  "finalContent (aggregated parse onEvent step d0 ob src) =
     content_after onEvent (frames parse (decoded step d0 (concat (chunks src)))) ([], ob)
       (Some (JStr []))"
  by (simp add: aggregated_def fold_handle_line_finalContent frames_def moment_initial)
     (simp add: initial_state_def)

lemma aggregated_runDetails:
  "runDetails (aggregated parse onEvent step d0 ob src) =
     run_after onEvent (frames parse (decoded step d0 (concat (chunks src)))) ([], ob) None"
  by (simp add: aggregated_def fold_handle_line_runDetails frames_def moment_initial)
     (simp add: initial_state_def)

lemma unrecognized_types:
  "\<not> recognized d \<Longrightarrow>
     \<not> has_type ''response.completed'' d \<and> \<not> has_type ''stream.completed'' d
     \<and> \<not> has_type ''stream.error'' d"
  by (auto simp: recognized_def has_type_def)

lemma recorder_effect:
  "returns_at (Some recorder) d v" "left_as (Some recorder) d v = d"
  "advance (Some recorder) d v = (fst v @ [d], snd v @ [d])"
  by (simp_all add: effect_of_Some recorder_def apply_edits_empty)

lemma recorder_unedited: "unedited (Some recorder) evs v"
  by (induction evs arbitrary: v) (simp_all add: recorder_effect)

lemma recorder_untouched: "untouched (Some recorder) evs v"
  by (induction evs arbitrary: v) (simp_all add: recorder_effect)

lemma objector_unedited: "unedited (Some objector) evs v"
  by (induction evs arbitrary: v) (simp_all add: effect_of_Some objector_def apply_edits_empty)

lemma aggregated_events_None:
  "events (aggregated parse None step d0 ob src) =
     frames parse (decoded step d0 (concat (chunks src)))"
  by (simp add: aggregated_events unedited_reached[OF unedited_None])

text \<open>
  C9, as amended. When an observer is supplied it is given every successfully decoded
  event of the stream exactly once, in wire order, and after any number of lines handled
  it has been given as many events as the log holds. The log holds one entry for each
  decoded event, in wire order, as the observer has left them: exactly the decoded events
  when there is no observer or when the observer changes nothing in the log. Handling a
  line that decodes to an event appends one entry to the log, the event as the observer
  leaves it, and gives the event to the observer within that step; an event whose type is
  unrecognized when the observer has been called sets neither the captured content nor
  the captured run, which are as the call of the observer leaves them: as they were when
  they are strings or absent, or when there is no observer.
\<close>

theorem every_event_logged_then_delivered:
  fixes onEvent :: "'o callback option"
  assumes "ok response" and "body response = Some src"
  shows "delivered (agg (final (sendMessage parse step d0 default_timeout onEvent ob timeout
                               (Responds response)))) =
           (if onEvent = None then [] else frames parse (decoded step d0 (concat (chunks src))))
       \<and> events (agg (final (sendMessage parse step d0 default_timeout onEvent ob timeout
                               (Responds response)))) =
           fst (reached onEvent (frames parse (decoded step d0 (concat (chunks src)))) ([], ob))
       \<and> length (events (agg (final (sendMessage parse step d0 default_timeout onEvent ob timeout
                               (Responds response))))) =
           length (frames parse (decoded step d0 (concat (chunks src))))
       \<and> (onEvent = None \<or> unedited onEvent (frames parse (decoded step d0 (concat (chunks src)))) ([], ob)
            \<longrightarrow> events (agg (final (sendMessage parse step d0 default_timeout onEvent ob timeout
                               (Responds response)))) =
                frames parse (decoded step d0 (concat (chunks src))))
       \<and> (\<forall>ls. delivered (fold (handle_line parse onEvent) ls (agg (initial_state d0 ob))) =
                  (if onEvent = None then [] else List.map_filter (frame_of parse) ls)
               \<and> length (events (fold (handle_line parse onEvent) ls (agg (initial_state d0 ob)))) =
                  length (List.map_filter (frame_of parse) ls))
       \<and> (\<forall>line d a. frame_of parse line = Some d \<longrightarrow>
              events (handle_line parse onEvent line a) = fst (advance onEvent d (moment a))
            \<and> length (events (handle_line parse onEvent line a)) = Suc (length (events a))
            \<and> last (events (handle_line parse onEvent line a)) = left_as onEvent d (moment a)
            \<and> delivered (handle_line parse onEvent line a) =
                 (if onEvent = None then delivered a else delivered a @ [d])
            \<and> (\<not> recognized (left_as onEvent d (moment a)) \<longrightarrow>
                  finalContent (handle_line parse onEvent line a) =
                    kept onEvent d (moment a) (finalContent a)
                \<and> runDetails (handle_line parse onEvent line a) =
                    kept onEvent d (moment a) (runDetails a)))
       \<and> (\<forall>d v c. onEvent = None \<or> immune c \<longrightarrow> kept onEvent d v c = c)"
proof (intro conjI allI impI)
  let ?fs = "frames parse (decoded step d0 (concat (chunks src)))"
  let ?S = "sendMessage parse step d0 default_timeout onEvent ob timeout (Responds response)"
  show "delivered (agg (final ?S)) = (if onEvent = None then [] else ?fs)"
    by (simp add: sendMessage_streamed[OF assms] aggregated_delivered)
  show e: "events (agg (final ?S)) = fst (reached onEvent ?fs ([], ob))"
    by (simp add: sendMessage_streamed[OF assms] aggregated_events)
  show "length (events (agg (final ?S))) = length ?fs"
    by (simp add: e reached_length)
  assume "onEvent = None \<or> unedited onEvent ?fs ([], ob)"
  then have "unedited onEvent ?fs ([], ob)"
    using unedited_None by blast
  then show "events (agg (final ?S)) = ?fs"
    by (simp add: e unedited_reached)
next
  fix ls
  show "delivered (fold (handle_line parse onEvent) ls (agg (initial_state d0 ob))) =
          (if onEvent = None then [] else List.map_filter (frame_of parse) ls)"
    by (simp add: fold_handle_line_delivered initial_state_def)
  show "length (events (fold (handle_line parse onEvent) ls (agg (initial_state d0 ob)))) =
          length (List.map_filter (frame_of parse) ls)"
    by (simp add: fold_handle_line_events reached_length moment_initial)
next
  fix line d and a :: "'o aggregate"
  assume f: "frame_of parse line = Some d"
  show "events (handle_line parse onEvent line a) = fst (advance onEvent d (moment a))"
    by (rule handle_line_frame(1)[OF f])
  show "length (events (handle_line parse onEvent line a)) = Suc (length (events a))"
    by (simp add: handle_line_frame(1)[OF f] advance_length moment_def)
  show "last (events (handle_line parse onEvent line a)) = left_as onEvent d (moment a)"
    by (simp add: handle_line_frame(1)[OF f] advance_last)
  show "delivered (handle_line parse onEvent line a) =
          (if onEvent = None then delivered a else delivered a @ [d])"
    by (rule handle_line_frame(2)[OF f])
  assume "\<not> recognized (left_as onEvent d (moment a))"
  then have n: "\<not> has_type ''response.completed'' (left_as onEvent d (moment a))"
    "\<not> has_type ''stream.completed'' (left_as onEvent d (moment a))"
    using unrecognized_types by blast+
  show "finalContent (handle_line parse onEvent line a) = kept onEvent d (moment a) (finalContent a)"
    by (simp add: handle_line_finalContent[OF f] n)
  show "runDetails (handle_line parse onEvent line a) = kept onEvent d (moment a) (runDetails a)"
    by (simp add: handle_line_runDetails[OF f] n)
next
  fix d v c
  assume "onEvent = None \<or> immune c"
  then show "kept onEvent d v c = c"
    using effect_of_None(4) kept_immune by blast
qed

theorem every_event_logged_then_delivered_witness:
  \<open>ok (streamed [scenario] Closed)
   \<and> body (streamed [scenario] Closed) = Some \<lparr>chunks = [scenario], ending = Closed\<rparr>
   \<and> unedited (Some recorder) (frames JSON_parse (decoded ascii_step () (concat [scenario]))) ([], [])
   \<and> events (agg (final (sendMessage JSON_parse ascii_step () 60000 (Some recorder) [] None
                            (Responds (streamed [scenario] Closed))))) =
       [JObj [(''type'', JStr ''response.started'')],
        JObj [(''type'', JStr ''response.item.completed''),
              (''item'', JObj [(''type'', JStr ''text''), (''content'', JStr ''Hi'')])],
        JObj [(''type'', JStr ''response.completed''),
              (''response'', JObj [(''content'', JStr ''Hi'')])],
        JObj [(''type'', JStr ''stream.completed''),
              (''run'', JObj [(''id'', JStr ''run_1''), (''status'', JStr ''success''),
                 (''tokens'', JObj [(''input'', JNum 10), (''output'', JNum 2)])])]]
   \<and> delivered (agg (final (sendMessage JSON_parse ascii_step () 60000 (Some recorder) [] None
                            (Responds (streamed [scenario] Closed))))) =
       events (agg (final (sendMessage JSON_parse ascii_step () 60000 (Some recorder) [] None
                            (Responds (streamed [scenario] Closed)))))
   \<and> frame_of JSON_parse ''data: {"type":"custom.ping"}'' =
         Some (JObj [(''type'', JStr ''custom.ping'')])
   \<and> \<not> recognized (left_as (Some recorder) (JObj [(''type'', JStr ''custom.ping'')])
                      (moment (agg (initial_state () []))))
   \<and> immune (finalContent (agg (initial_state () ([] :: json list))))
   \<and> immune (runDetails (agg (initial_state () ([] :: json list))))
   \<and> events (handle_line JSON_parse (Some recorder) ''data: {"type":"custom.ping"}''
                (agg (initial_state () []))) = [JObj [(''type'', JStr ''custom.ping'')]]
   \<and> delivered (handle_line JSON_parse (Some recorder) ''data: {"type":"custom.ping"}''
                (agg (initial_state () []))) = [JObj [(''type'', JStr ''custom.ping'')]]
   \<and> finalContent (handle_line JSON_parse (Some recorder) ''data: {"type":"custom.ping"}''
                (agg (initial_state () []))) = Some (JStr [])
   \<and> runDetails (handle_line JSON_parse (Some recorder) ''data: {"type":"custom.ping"}''
                (agg (initial_state () []))) = None\<close>
proof -
  let ?ping = \<open>JObj [(''type'', JStr ''custom.ping'')]\<close>
  let ?line = \<open>''data: {"type":"custom.ping"}''\<close>
  let ?a0 = "agg (initial_state () ([] :: json list))"
  let ?fs = \<open>frames JSON_parse (decoded ascii_step () (concat [scenario]))\<close>
  let ?S = \<open>sendMessage JSON_parse ascii_step () 60000 (Some recorder) [] None
              (Responds (streamed [scenario] Closed))\<close>
  have fr: \<open>?fs =
       [JObj [(''type'', JStr ''response.started'')],
        JObj [(''type'', JStr ''response.item.completed''),
              (''item'', JObj [(''type'', JStr ''text''), (''content'', JStr ''Hi'')])],
        JObj [(''type'', JStr ''response.completed''),
              (''response'', JObj [(''content'', JStr ''Hi'')])],
        JObj [(''type'', JStr ''stream.completed''),
              (''run'', JObj [(''id'', JStr ''run_1''), (''status'', JStr ''success''),
                 (''tokens'', JObj [(''input'', JNum 10), (''output'', JNum 2)])])]]\<close>
    by code_simp
  have fo: "frame_of JSON_parse ?line = Some ?ping"
    by code_simp
  have nr: "\<not> recognized (left_as (Some recorder) ?ping (moment ?a0))"
    by code_simp
  have un: "unedited (Some recorder) ?fs ([], [])"
    by (rule recorder_unedited)
  have a0: "events ?a0 = []" "delivered ?a0 = []" "finalContent ?a0 = Some (JStr [])"
    "runDetails ?a0 = None" "moment ?a0 = ([], [])"
    by (simp_all add: initial_state_def moment_def)
  have im: "immune (Some (JStr []))" "immune None"
    by (simp_all add: immune_def)
  have ad: "fst (advance (Some recorder) ?ping ([], [])) = [?ping]"
    by code_simp
  note T = every_event_logged_then_delivered[OF streamed_sel,
      where parse = JSON_parse and step = ascii_step and ?d0.0 = "()" and default_timeout = 60000
        and onEvent = "Some recorder" and ob = "[]" and timeout = None
        and ?cs1 = "[scenario]" and ?e1 = Closed]
  from T have keep: "\<forall>d v c. Some recorder = None \<or> immune c \<longrightarrow> kept (Some recorder) d v c = c"
    by blast
  from T have step: "\<forall>line d a. frame_of JSON_parse line = Some d \<longrightarrow>
              events (handle_line JSON_parse (Some recorder) line a) =
                fst (advance (Some recorder) d (moment a))
            \<and> length (events (handle_line JSON_parse (Some recorder) line a)) = Suc (length (events a))
            \<and> last (events (handle_line JSON_parse (Some recorder) line a)) =
                left_as (Some recorder) d (moment a)
            \<and> delivered (handle_line JSON_parse (Some recorder) line a) =
                 (if Some recorder = None then delivered a else delivered a @ [d])
            \<and> (\<not> recognized (left_as (Some recorder) d (moment a)) \<longrightarrow>
                  finalContent (handle_line JSON_parse (Some recorder) line a) =
                    kept (Some recorder) d (moment a) (finalContent a)
                \<and> runDetails (handle_line JSON_parse (Some recorder) line a) =
                    kept (Some recorder) d (moment a) (runDetails a))"
    by blast
  have one: "events (handle_line JSON_parse (Some recorder) ?line ?a0) = [?ping]
     \<and> delivered (handle_line JSON_parse (Some recorder) ?line ?a0) = [?ping]
     \<and> finalContent (handle_line JSON_parse (Some recorder) ?line ?a0) = Some (JStr [])
     \<and> runDetails (handle_line JSON_parse (Some recorder) ?line ?a0) = None"
    using step[rule_format, OF fo, of ?a0] nr keep im by (simp add: a0 ad)
  have del: "delivered (agg (final ?S)) = ?fs"
    using T[THEN conjunct1] by simp
  have whole: "events (agg (final ?S)) = ?fs"
    using T[THEN conjunct2, THEN conjunct2, THEN conjunct2, THEN conjunct1] un by simp
  have ims: "immune (finalContent ?a0)" "immune (runDetails ?a0)"
    by (simp_all add: a0 im)
  have ev: \<open>events (agg (final ?S)) =
       [JObj [(''type'', JStr ''response.started'')],
        JObj [(''type'', JStr ''response.item.completed''),
              (''item'', JObj [(''type'', JStr ''text''), (''content'', JStr ''Hi'')])],
        JObj [(''type'', JStr ''response.completed''),
              (''response'', JObj [(''content'', JStr ''Hi'')])],
        JObj [(''type'', JStr ''stream.completed''),
              (''run'', JObj [(''id'', JStr ''run_1''), (''status'', JStr ''success''),
                 (''tokens'', JObj [(''input'', JNum 10), (''output'', JNum 2)])])]]\<close>
    unfolding whole by (rule fr)
  have de: "delivered (agg (final ?S)) = events (agg (final ?S))"
    unfolding whole del by (rule refl)
  show ?thesis
    by (intro conjI)
       (rule streamed_sel un ev de fo nr ims one[THEN conjunct1]
          one[THEN conjunct2, THEN conjunct1]
          one[THEN conjunct2, THEN conjunct2, THEN conjunct1]
          one[THEN conjunct2, THEN conjunct2, THEN conjunct2])+
qed

text \<open>
  An event that arrives with an unrecognized type and that the observer retypes is
  classified by its new type: it sets the captured content, and the log holds it
  retyped.
\<close>

theorem retyped_event_is_classified_counterexample:
  \<open>frame_of JSON_parse ''data: {"type":"custom.note","response":{"content":"hijack"}}'' =
     Some (JObj [(''type'', JStr ''custom.note''),
                 (''response'', JObj [(''content'', JStr ''hijack'')])])
   \<and> \<not> recognized (JObj [(''type'', JStr ''custom.note''),
                          (''response'', JObj [(''content'', JStr ''hijack'')])])
   \<and> finalContent (agg (initial_state () ())) = Some (JStr [])
   \<and> finalContent (handle_line JSON_parse (Some retyper)
        ''data: {"type":"custom.note","response":{"content":"hijack"}}''
        (agg (initial_state () ()))) = Some (JStr ''hijack'')
   \<and> events (handle_line JSON_parse (Some retyper)
        ''data: {"type":"custom.note","response":{"content":"hijack"}}''
        (agg (initial_state () ()))) =
       [JObj [(''type'', JStr ''response.completed''),
              (''response'', JObj [(''content'', JStr ''hijack'')])]]
   \<and> delivered (handle_line JSON_parse (Some retyper)
        ''data: {"type":"custom.note","response":{"content":"hijack"}}''
        (agg (initial_state () ()))) =
       [JObj [(''type'', JStr ''custom.note''),
              (''response'', JObj [(''content'', JStr ''hijack'')])]]\<close>
  by code_simp

lemma sendMessage_raises_only_source_errors:
  assumes "ok response" and "body response = Some src"
  shows "outcome (sendMessage parse step d0 default_timeout onEvent ob timeout (Responds response)) =
           Raised e \<longleftrightarrow> ending src = Errored e"
  by (simp add: sendMessage_streamed[OF assms] split: ending.splits)

text \<open>
  C10. When the observer throws on an event, the handling of that line ends with the
  event in the log, as the observer left it, and counted as delivered, with the captured
  content and run not set from it, and with one warning when the payload is not blank.
  The exception goes no further: a call that read a body raises only what the byte source
  itself failed with, and its log still holds an entry for every decoded event of the
  stream, those after the throw included: the decoded events themselves when the observer
  changes nothing in the log.
\<close>

theorem throwing_observer_is_swallowed:
  fixes g :: "'o callback"
  assumes "frame_of parse line = Some d" and "g d (events a) (observer a) = eff"
    and "ef_thrown eff = Some x" and "ok response" and "body response = Some src"
  shows "handle_line parse (Some g) line a =
           a\<lparr>events := apply_edits (ef_edits eff) (events a) @ [ef_event eff],
             finalContent := in_place (ef_touch eff) (finalContent a),
             runDetails := in_place (ef_touch eff) (runDetails a),
             delivered := delivered a @ [d], observer := ef_state eff,
             warned := warned a @ (if trim (slice line 6) \<noteq> [] then [line] else [])\<rparr>
       \<and> (\<forall>e. outcome (sendMessage parse step d0 default_timeout (Some g) ob timeout
                          (Responds response)) = Raised e \<longrightarrow> ending src = Errored e)
       \<and> events (agg (final (sendMessage parse step d0 default_timeout (Some g) ob timeout
                          (Responds response)))) =
           fst (reached (Some g) (frames parse (decoded step d0 (concat (chunks src)))) ([], ob))
       \<and> length (events (agg (final (sendMessage parse step d0 default_timeout (Some g) ob timeout
                          (Responds response))))) =
           length (frames parse (decoded step d0 (concat (chunks src))))
       \<and> (unedited (Some g) (frames parse (decoded step d0 (concat (chunks src)))) ([], ob) \<longrightarrow>
            events (agg (final (sendMessage parse step d0 default_timeout (Some g) ob timeout
                          (Responds response)))) =
              frames parse (decoded step d0 (concat (chunks src))))"
proof (intro conjI impI)
  let ?fs = "frames parse (decoded step d0 (concat (chunks src)))"
  let ?S = "sendMessage parse step d0 default_timeout (Some g) ob timeout (Responds response)"
  have s: "startsWith line ''data: ''" and p: "parse (slice line 6) = Some d"
    using frame_of_SomeD[OF assms(1)] by simp_all
  have ef: "effect_of (Some g) d (moment a) = eff"
    using assms(2) by (simp add: effect_of_def moment_def)
  have th: "ef_thrown (effect_of (Some g) d (moment a)) = Some x"
    using ef assms(3) by simp
  have t: "try_frame parse (Some g) line a =
      (Some x, a\<lparr>events := apply_edits (ef_edits eff) (events a) @ [ef_event eff],
             finalContent := in_place (ef_touch eff) (finalContent a),
             runDetails := in_place (ef_touch eff) (runDetails a),
             delivered := delivered a @ [d], observer := ef_state eff\<rparr>)"
    using try_frame_thrown[of parse line d "Some g" a x] p th
    by (simp add: advance_def kept_def ef) (simp add: moment_def)
  show "handle_line parse (Some g) line a =
           a\<lparr>events := apply_edits (ef_edits eff) (events a) @ [ef_event eff],
             finalContent := in_place (ef_touch eff) (finalContent a),
             runDetails := in_place (ef_touch eff) (runDetails a),
             delivered := delivered a @ [d], observer := ef_state eff,
             warned := warned a @ (if trim (slice line 6) \<noteq> [] then [line] else [])\<rparr>"
    by (simp add: handle_line_data[OF s] t)
  show "\<forall>e. outcome ?S = Raised e \<longrightarrow> ending src = Errored e"
    by (simp add: sendMessage_raises_only_source_errors[OF assms(4,5)])
  show e: "events (agg (final ?S)) = fst (reached (Some g) ?fs ([], ob))"
    by (simp add: sendMessage_streamed[OF assms(4,5)] aggregated_events)
  show "length (events (agg (final ?S))) = length ?fs"
    by (simp add: e reached_length)
  assume "unedited (Some g) ?fs ([], ob)"
  then show "events (agg (final ?S)) = ?fs"
    by (simp add: e unedited_reached)
qed

theorem throwing_observer_is_swallowed_witness:
  \<open>frame_of JSON_parse ''data: {"type":"stream.completed","run":{"id":"run_1"}}'' =
     Some (JObj [(''type'', JStr ''stream.completed''), (''run'', JObj [(''id'', JStr ''run_1'')])])
   \<and> ef_thrown
        (objector (JObj [(''type'', JStr ''stream.completed''), (''run'', JObj [(''id'', JStr ''run_1'')])])
           (events (agg (initial_state () ()))) (observer (agg (initial_state () ())))) =
       Some (Error (Some (JStr ''observer failed'')))
   \<and> ok (streamed [scenario] Closed)
   \<and> body (streamed [scenario] Closed) = Some \<lparr>chunks = [scenario], ending = Closed\<rparr>
   \<and> unedited (Some objector) (frames JSON_parse (decoded ascii_step () (concat [scenario]))) ([], ())
   \<and> handle_line JSON_parse (Some objector)
        ''data: {"type":"stream.completed","run":{"id":"run_1"}}'' (agg (initial_state () ())) =
       \<lparr>events = [JObj [(''type'', JStr ''stream.completed''),
                         (''run'', JObj [(''id'', JStr ''run_1'')])]],
        finalContent = Some (JStr []), runDetails = None,
        warned = [''data: {"type":"stream.completed","run":{"id":"run_1"}}''],
        delivered = [JObj [(''type'', JStr ''stream.completed''),
                           (''run'', JObj [(''id'', JStr ''run_1'')])]],
        observer = ()\<rparr>
   \<and> events (agg (final (sendMessage JSON_parse ascii_step () 60000 (Some objector) () None
                          (Responds (streamed [scenario] Closed))))) =
       [JObj [(''type'', JStr ''response.started'')],
        JObj [(''type'', JStr ''response.item.completed''),
              (''item'', JObj [(''type'', JStr ''text''), (''content'', JStr ''Hi'')])],
        JObj [(''type'', JStr ''response.completed''),
              (''response'', JObj [(''content'', JStr ''Hi'')])],
        JObj [(''type'', JStr ''stream.completed''),
              (''run'', JObj [(''id'', JStr ''run_1''), (''status'', JStr ''success''),
                 (''tokens'', JObj [(''input'', JNum 10), (''output'', JNum 2)])])]]\<close>
proof -
  let ?L = \<open>''data: {"type":"stream.completed","run":{"id":"run_1"}}''\<close>
  let ?D = \<open>JObj [(''type'', JStr ''stream.completed''), (''run'', JObj [(''id'', JStr ''run_1'')])]\<close>
  let ?a0 = "agg (initial_state () ())"
  let ?E = "objector ?D (events ?a0) (observer ?a0)"
  let ?fs = \<open>frames JSON_parse (decoded ascii_step () (concat [scenario]))\<close>
  let ?S = \<open>sendMessage JSON_parse ascii_step () 60000 (Some objector) () None
              (Responds (streamed [scenario] Closed))\<close>
  have fo: "frame_of JSON_parse ?L = Some ?D"
    by code_simp
  have th: "ef_thrown ?E = Some (Error (Some (JStr ''observer failed'')))"
    by code_simp
  have tr: "trim (slice ?L 6) \<noteq> []"
    by code_simp
  have fr: \<open>?fs =
       [JObj [(''type'', JStr ''response.started'')],
        JObj [(''type'', JStr ''response.item.completed''),
              (''item'', JObj [(''type'', JStr ''text''), (''content'', JStr ''Hi'')])],
        JObj [(''type'', JStr ''response.completed''),
              (''response'', JObj [(''content'', JStr ''Hi'')])],
        JObj [(''type'', JStr ''stream.completed''),
              (''run'', JObj [(''id'', JStr ''run_1''), (''status'', JStr ''success''),
                 (''tokens'', JObj [(''input'', JNum 10), (''output'', JNum 2)])])]]\<close>
    by code_simp
  have un: "unedited (Some objector) ?fs ([], ())"
    by (rule objector_unedited)
  have ee: "ef_event ?E = ?D" "ef_edits ?E = Map.empty" "ef_touch ?E = (\<lambda>x. x)" "ef_state ?E = ()"
    by (simp_all add: objector_def)
  note T = throwing_observer_is_swallowed[where g = objector and d = ?D and a = ?a0
        and parse = JSON_parse and line = ?L and eff = ?E
        and x = "Error (Some (JStr ''observer failed''))"
        and response = "streamed [scenario] Closed"
        and src = "\<lparr>chunks = [scenario], ending = Closed\<rparr>"
        and step = ascii_step and ?d0.0 = "()" and default_timeout = 60000
        and ob = "()" and timeout = None, OF fo refl th streamed_sel]
  have one: \<open>handle_line JSON_parse (Some objector) ?L ?a0 =
       \<lparr>events = [?D], finalContent = Some (JStr []), runDetails = None,
        warned = [?L], delivered = [?D], observer = ()\<rparr>\<close>
    unfolding T[THEN conjunct1] ee
    using tr by (simp add: initial_state_def apply_edits_empty in_place_id)
  have whole: "events (agg (final ?S)) = ?fs"
    using T[THEN conjunct2, THEN conjunct2, THEN conjunct2, THEN conjunct2] un by simp
  have ev: \<open>events (agg (final ?S)) =
       [JObj [(''type'', JStr ''response.started'')],
        JObj [(''type'', JStr ''response.item.completed''),
              (''item'', JObj [(''type'', JStr ''text''), (''content'', JStr ''Hi'')])],
        JObj [(''type'', JStr ''response.completed''),
              (''response'', JObj [(''content'', JStr ''Hi'')])],
        JObj [(''type'', JStr ''stream.completed''),
              (''run'', JObj [(''id'', JStr ''run_1''), (''status'', JStr ''success''),
                 (''tokens'', JObj [(''input'', JNum 10), (''output'', JNum 2)])])]]\<close>
    unfolding whole by (rule fr)
  show ?thesis
    by (intro conjI) (rule fo th streamed_sel un one ev)+
qed

text \<open>
  C5, as amended. A \<^verbatim>\<open>data: \<close> line whose payload does not parse changes nothing
  but the diagnostics: the line is warned about when its payload contains something other
  than white space, and not at all when the payload is empty or blank. Handling goes on
  with the next line, and the call raises only what the byte source itself failed with.
\<close>

theorem unparsable_payload_is_dropped:
  assumes "startsWith line ''data: ''" and "parse (slice line 6) = None"
    and "ok response" and "body response = Some src"
  shows "handle_line parse onEvent line a =
           (if trim (slice line 6) \<noteq> [] then a\<lparr>warned := warned a @ [line]\<rparr> else a)
       \<and> fold (handle_line parse onEvent) (line # rest) a =
           fold (handle_line parse onEvent) rest
             (if trim (slice line 6) \<noteq> [] then a\<lparr>warned := warned a @ [line]\<rparr> else a)
       \<and> (\<forall>e. outcome (sendMessage parse step d0 default_timeout onEvent ob timeout
                          (Responds response)) = Raised e \<longrightarrow> ending src = Errored e)"
  using assms(1,2)
  by (simp add: handle_line_unparsed sendMessage_raises_only_source_errors[OF assms(3,4)])

theorem unparsable_payload_is_dropped_witness:
  \<open>startsWith ''data: {"ty'' ''data: '' \<and> JSON_parse (slice ''data: {"ty'' 6) = None
   \<and> startsWith ''data: '' ''data: '' \<and> JSON_parse (slice ''data: '' 6) = None
   \<and> ok (streamed [scenario] Closed)
   \<and> body (streamed [scenario] Closed) = Some \<lparr>chunks = [scenario], ending = Closed\<rparr>
   \<and> handle_line JSON_parse (Some recorder) ''data: {"ty'' (agg (initial_state () [])) =
       (agg (initial_state () []))\<lparr>warned := [''data: {"ty'']\<rparr>
   \<and> handle_line JSON_parse (Some recorder) ''data: '' (agg (initial_state () [])) =
       agg (initial_state () [])\<close>
proof -
  have s1: \<open>startsWith ''data: {"ty'' ''data: ''\<close> and p1: \<open>JSON_parse (slice ''data: {"ty'' 6) = None\<close>
    and t1: \<open>trim (slice ''data: {"ty'' 6) \<noteq> []\<close>
    by code_simp+
  have s2: \<open>startsWith ''data: '' ''data: ''\<close> and p2: \<open>JSON_parse (slice ''data: '' 6) = None\<close>
    and t2: \<open>trim (slice ''data: '' 6) = []\<close>
    by code_simp+
  note A = unparsable_payload_is_dropped[where parse = JSON_parse and line = \<open>''data: {"ty''\<close>
        and onEvent = "Some recorder" and a = "agg (initial_state () [])"
        and response = "streamed [scenario] Closed"
        and src = "\<lparr>chunks = [scenario], ending = Closed\<rparr>", OF s1 p1 streamed_sel]
  note B = unparsable_payload_is_dropped[where parse = JSON_parse and line = \<open>''data: ''\<close>
        and onEvent = "Some recorder" and a = "agg (initial_state () [])"
        and response = "streamed [scenario] Closed"
        and src = "\<lparr>chunks = [scenario], ending = Closed\<rparr>", OF s2 p2 streamed_sel]
  have A': \<open>handle_line JSON_parse (Some recorder) ''data: {"ty'' (agg (initial_state () [])) =
       (agg (initial_state () []))\<lparr>warned := [''data: {"ty'']\<rparr>\<close>
    using A[THEN conjunct1] t1 by (simp only: if_True simp_thms) (simp add: initial_state_def)
  have B': \<open>handle_line JSON_parse (Some recorder) ''data: '' (agg (initial_state () [])) =
       agg (initial_state () [])\<close>
    using B[THEN conjunct1] t2 by (simp only: if_False simp_thms)
  show ?thesis
    using A' B' s1 p1 s2 p2 streamed_sel[of "[scenario]" Closed]
    by simp
qed

theorem blank_payload_counterexample:
  \<open>startsWith ''data:  '' ''data: '' \<and> slice ''data:  '' 6 \<noteq> []
   \<and> JSON_parse (slice ''data:  '' 6) = None
   \<and> warned (handle_line JSON_parse (Some recorder) ''data:  '' (agg (initial_state () []))) = []\<close>
  by code_simp

lemma find_rev_None: "find P (rev xs) = None \<longleftrightarrow> (\<forall>x\<in>set xs. \<not> P x)"
  by (auto simp: find_None_iff)

lemma find_rev_Some:
  "find P (rev xs) = Some r \<Longrightarrow> \<exists>before after. xs = before @ r # after \<and> P r \<and> (\<forall>x\<in>set after. \<not> P x)"
proof (induction xs rule: rev_induct)
  case Nil
  then show ?case by simp
next
  case (snoc y ys)
  show ?case
  proof (cases "P y")
    case True
    then have "r = y" using snoc.prems by simp
    then have "ys @ [y] = ys @ r # [] \<and> P r \<and> (\<forall>x\<in>set []. \<not> P x)"
      using True by simp
    then show ?thesis by blast
  next
    case False
    then have "find P (rev ys) = Some r" using snoc.prems by simp
    then obtain before after where "ys = before @ r # after" "P r" "\<forall>x\<in>set after. \<not> P x"
      using snoc.IH by blast
    then have "ys @ [y] = before @ r # (after @ [y]) \<and> P r \<and> (\<forall>x\<in>set (after @ [y]). \<not> P x)"
      using False by simp
    then show ?thesis by blast
  qed
qed

lemma has_type_exclusive: "has_type s d \<Longrightarrow> has_type t d \<Longrightarrow> s = t"
  by (simp add: has_type_def)

lemma carries_text_or_js:
  "carries_text d \<Longrightarrow> or_js (response_content d) (Some (JStr [])) = response_content d"
  by (auto simp: carries_text_def or_js_def split: option.splits json.splits)

lemma carries_text_immune: "carries_text d \<Longrightarrow> immune (response_content d)"
  by (auto simp: carries_text_def immune_def split: option.splits json.splits)

lemma run_after_last:
  assumes "untouched onEvent (pre @ [fin]) v" and "returns_at onEvent fin (reached onEvent pre v)"
    and "has_type ''stream.completed'' fin"
  shows "run_after onEvent (pre @ [fin]) v r = own_prop fin ''run''"
proof -
  have "left_as onEvent fin (reached onEvent pre v) = fin"
    using assms(1) by (simp add: untouched_append)
  then show ?thesis
    using assms(2,3) by (simp add: run_after_append)
qed

lemma content_after_none:
  assumes "untouched onEvent evs v" and "\<forall>x\<in>set evs. \<not> has_type ''response.completed'' x"
    and "immune c"
  shows "content_after onEvent evs v c = c"
  using classified_untouched[OF assms(1)] assms(2,3)
  by (intro content_after_immune) auto

lemma content_after_last:
  assumes "untouched onEvent (before @ rc # after) v"
    and "returns_at onEvent rc (reached onEvent before v)"
    and "has_type ''response.completed'' rc" and "carries_text rc"
    and "\<forall>x\<in>set after. \<not> has_type ''response.completed'' x"
  shows "content_after onEvent (before @ rc # after) v c = response_content rc"
proof -
  let ?v1 = "reached onEvent before v"
  have u: "left_as onEvent rc ?v1 = rc" "untouched onEvent after (advance onEvent rc ?v1)"
    using assms(1) by (simp_all add: untouched_append)
  have "content_after onEvent (before @ rc # after) v c =
          content_after onEvent after (advance onEvent rc ?v1)
            (or_js (response_content rc) (Some (JStr [])))"
    using assms(2,3) u(1) by (simp add: content_after_append)
  also have "\<dots> = content_after onEvent after (advance onEvent rc ?v1) (response_content rc)"
    by (simp add: carries_text_or_js[OF assms(4)])
  also have "\<dots> = response_content rc"
    by (rule content_after_none[OF u(2) assms(5) carries_text_immune[OF assms(4)]])
  finally show ?thesis .
qed

text \<open>
  C3, as amended. A stream that closes normally and whose last decoded event is a
  \<^verbatim>\<open>stream.completed\<close> event makes the call return, with the run payload of that event
  and the content of the last \<^verbatim>\<open>response.completed\<close> event before it, or the empty
  string when there is none; provided the observer, if one is supplied, leaves each event
  of this call as it receives it, and returns normally when it is called with these two
  events in this call. The log returned is the log as the observer has left it. (Neither
  the absence of \<^verbatim>\<open>stream.error\<close> events nor the uniqueness of the final event is needed.)
\<close>

theorem completed_stream_result:
  assumes "ok response" and "body response = Some src" and "ending src = Closed"
    and "frames parse (decoded step d0 (concat (chunks src))) = pre @ [fin]"
    and "has_type ''stream.completed'' fin"
    and "untouched onEvent (pre @ [fin]) ([], ob)"
    and "returns_at onEvent fin (reached onEvent pre ([], ob))"
    and "\<forall>before rc after.
           pre = before @ rc # after \<and> has_type ''response.completed'' rc
           \<and> (\<forall>x\<in>set after. \<not> has_type ''response.completed'' x)
           \<longrightarrow> returns_at onEvent rc (reached onEvent before ([], ob)) \<and> carries_text rc"
  shows "outcome (sendMessage parse step d0 default_timeout onEvent ob timeout (Responds response)) =
     Returned
       \<lparr>sm_content =
          (case find (has_type ''response.completed'') (rev pre) of
             None \<Rightarrow> Some (JStr [])
           | Some rc \<Rightarrow> response_content rc),
        sm_run = own_prop fin ''run'',
        sm_events = fst (reached onEvent (pre @ [fin]) ([], ob))\<rparr>"
proof -
  have nrc: "\<not> has_type ''response.completed'' fin"
    using has_type_exclusive[OF assms(5)] by fastforce
  have run: "runDetails (aggregated parse onEvent step d0 ob src) = own_prop fin ''run''"
    unfolding aggregated_runDetails assms(4)
    by (rule run_after_last[OF assms(6,7,5)])
  have content: "finalContent (aggregated parse onEvent step d0 ob src) =
      (case find (has_type ''response.completed'') (rev pre) of
         None \<Rightarrow> Some (JStr [])
       | Some rc \<Rightarrow> response_content rc)"
  proof (cases "find (has_type ''response.completed'') (rev pre)")
    case None
    then have "\<forall>x\<in>set (pre @ [fin]). \<not> has_type ''response.completed'' x"
      using nrc by (simp add: find_rev_None)
    then have "content_after onEvent (pre @ [fin]) ([], ob) (Some (JStr [])) = Some (JStr [])"
      using assms(6) by (intro content_after_none) (simp_all add: immune_def)
    then show ?thesis
      unfolding aggregated_finalContent assms(4) using None by simp
  next
    case (Some rc)
    then obtain before after where sp: "pre = before @ rc # after"
      and ty: "has_type ''response.completed'' rc"
      and af: "\<forall>x\<in>set after. \<not> has_type ''response.completed'' x"
      using find_rev_Some[of "has_type ''response.completed''" pre rc] by blast
    have q: "returns_at onEvent rc (reached onEvent before ([], ob))" and ct: "carries_text rc"
      using assms(8) sp ty af by blast+
    have af': "\<forall>x\<in>set (after @ [fin]). \<not> has_type ''response.completed'' x"
      using af nrc by simp
    have u: "untouched onEvent (before @ rc # (after @ [fin])) ([], ob)"
      using assms(6) by (simp add: sp)
    have "content_after onEvent (before @ rc # (after @ [fin])) ([], ob) (Some (JStr [])) =
            response_content rc"
      by (rule content_after_last[OF u q ty ct af'])
    then show ?thesis
      unfolding aggregated_finalContent assms(4) using Some by (simp add: sp)
  qed
  show ?thesis
    by (simp add: sendMessage_streamed[OF assms(1,2)] assms(3) run content aggregated_events assms(4))
qed

lemma fussy_untouched: "untouched (Some fussy) evs v"
  by (induction evs arbitrary: v) (simp_all add: effect_of_Some fussy_def)

theorem completed_stream_result_witness:
  \<open>ok (streamed [scenario] Closed)
   \<and> body (streamed [scenario] Closed) = Some \<lparr>chunks = [scenario], ending = Closed\<rparr>
   \<and> frames JSON_parse (decoded ascii_step () (concat [scenario])) =
       [JObj [(''type'', JStr ''response.started'')],
        JObj [(''type'', JStr ''response.item.completed''),
              (''item'', JObj [(''type'', JStr ''text''), (''content'', JStr ''Hi'')])],
        JObj [(''type'', JStr ''response.completed''),
              (''response'', JObj [(''content'', JStr ''Hi'')])]] @
       [JObj [(''type'', JStr ''stream.completed''),
              (''run'', JObj [(''id'', JStr ''run_1''), (''status'', JStr ''success''),
                 (''tokens'', JObj [(''input'', JNum 10), (''output'', JNum 2)])])]]
   \<and> has_type ''stream.completed''
        (JObj [(''type'', JStr ''stream.completed''),
              (''run'', JObj [(''id'', JStr ''run_1''), (''status'', JStr ''success''),
                 (''tokens'', JObj [(''input'', JNum 10), (''output'', JNum 2)])])])
   \<and> carries_text (JObj [(''type'', JStr ''response.completed''),
              (''response'', JObj [(''content'', JStr ''Hi'')])])
   \<and> untouched (Some fussy) (frames JSON_parse (decoded ascii_step () (concat [scenario]))) ([], 0)
   \<and> \<not> returns_at (Some fussy) (JObj [(''type'', JStr ''response.started'')]) ([], 0)
   \<and> returns_at (Some fussy)
        (JObj [(''type'', JStr ''response.completed''),
              (''response'', JObj [(''content'', JStr ''Hi'')])])
        (reached (Some fussy)
           [JObj [(''type'', JStr ''response.started'')],
            JObj [(''type'', JStr ''response.item.completed''),
              (''item'', JObj [(''type'', JStr ''text''), (''content'', JStr ''Hi'')])]] ([], 0))
   \<and> returns_at (Some fussy)
        (JObj [(''type'', JStr ''stream.completed''),
              (''run'', JObj [(''id'', JStr ''run_1''), (''status'', JStr ''success''),
                 (''tokens'', JObj [(''input'', JNum 10), (''output'', JNum 2)])])])
        (reached (Some fussy)
           [JObj [(''type'', JStr ''response.started'')],
            JObj [(''type'', JStr ''response.item.completed''),
              (''item'', JObj [(''type'', JStr ''text''), (''content'', JStr ''Hi'')])],
            JObj [(''type'', JStr ''response.completed''),
              (''response'', JObj [(''content'', JStr ''Hi'')])]] ([], 0))
   \<and> outcome (sendMessage JSON_parse ascii_step () 60000 (Some fussy) 0 None
                (Responds (streamed [scenario] Closed))) =
       Returned
         \<lparr>sm_content = Some (JStr ''Hi''),
          sm_run = Some (JObj [(''id'', JStr ''run_1''), (''status'', JStr ''success''),
                     (''tokens'', JObj [(''input'', JNum 10), (''output'', JNum 2)])]),
          sm_events =
            [JObj [(''type'', JStr ''response.started'')],
             JObj [(''type'', JStr ''response.item.completed''),
                   (''item'', JObj [(''type'', JStr ''text''), (''content'', JStr ''Hi'')])],
             JObj [(''type'', JStr ''response.completed''),
                   (''response'', JObj [(''content'', JStr ''Hi'')])],
             JObj [(''type'', JStr ''stream.completed''),
                   (''run'', JObj [(''id'', JStr ''run_1''), (''status'', JStr ''success''),
                      (''tokens'', JObj [(''input'', JNum 10), (''output'', JNum 2)])])]]\<rparr>
   \<and> outcome (sendMessage JSON_parse ascii_step () 60000 (Some recorder) [] None
                (Responds (streamed [''data: {"type":"stream.completed","run":{"id":"run_2"}}\<newline>''] Closed))) =
       Returned
         \<lparr>sm_content = Some (JStr []),
          sm_run = Some (JObj [(''id'', JStr ''run_2'')]),
          sm_events = [JObj [(''type'', JStr ''stream.completed''),
                             (''run'', JObj [(''id'', JStr ''run_2'')])]]\<rparr>\<close>
proof -
  let ?e1 = \<open>JObj [(''type'', JStr ''response.started'')]\<close>
  let ?e2 = \<open>JObj [(''type'', JStr ''response.item.completed''),
              (''item'', JObj [(''type'', JStr ''text''), (''content'', JStr ''Hi'')])]\<close>
  let ?e3 = \<open>JObj [(''type'', JStr ''response.completed''),
              (''response'', JObj [(''content'', JStr ''Hi'')])]\<close>
  let ?e4 = \<open>JObj [(''type'', JStr ''stream.completed''),
              (''run'', JObj [(''id'', JStr ''run_1''), (''status'', JStr ''success''),
                 (''tokens'', JObj [(''input'', JNum 10), (''output'', JNum 2)])])]\<close>
  let ?short = \<open>''data: {"type":"stream.completed","run":{"id":"run_2"}}\<newline>''\<close>
  let ?f = \<open>JObj [(''type'', JStr ''stream.completed''), (''run'', JObj [(''id'', JStr ''run_2'')])]\<close>
  have fr: "frames JSON_parse (decoded ascii_step () (concat (chunks \<lparr>chunks = [scenario], ending = Closed\<rparr>))) =
            [?e1, ?e2, ?e3] @ [?e4]"
    by code_simp
  have fr': "frames JSON_parse (decoded ascii_step () (concat [scenario])) = [?e1, ?e2, ?e3] @ [?e4]"
    using fr by simp
  have ty: "has_type ''stream.completed'' ?e4"
    by code_simp
  have fi: "find (has_type ''response.completed'') (rev [?e1, ?e2, ?e3]) = Some ?e3"
    by code_simp
  have ct: "carries_text ?e3" and rc: "response_content ?e3 = Some (JStr ''Hi'')"
    and ru: "own_prop ?e4 ''run'' = Some (JObj [(''id'', JStr ''run_1''), (''status'', JStr ''success''),
                 (''tokens'', JObj [(''input'', JNum 10), (''output'', JNum 2)])])"
    by code_simp+
  have n12: "\<not> has_type ''response.completed'' ?e1" "\<not> has_type ''response.completed'' ?e2"
    by code_simp+
  have q0: "\<not> returns_at (Some fussy) ?e1 ([], 0)"
    by code_simp
  have q3: "returns_at (Some fussy) ?e3 (reached (Some fussy) [?e1, ?e2] ([], 0))"
    by code_simp
  have q4: "returns_at (Some fussy) ?e4 (reached (Some fussy) [?e1, ?e2, ?e3] ([], 0))"
    by code_simp
  have lg: "fst (reached (Some fussy) ([?e1, ?e2, ?e3] @ [?e4]) ([], 0)) = [?e1, ?e2, ?e3, ?e4]"
    by code_simp
  have un: "untouched (Some fussy) ([?e1, ?e2, ?e3] @ [?e4]) ([], 0)"
    by (rule fussy_untouched)
  have pre: "\<forall>before rc after.
           [?e1, ?e2, ?e3] = before @ rc # after \<and> has_type ''response.completed'' rc
           \<and> (\<forall>x\<in>set after. \<not> has_type ''response.completed'' x)
           \<longrightarrow> returns_at (Some fussy) rc (reached (Some fussy) before ([], 0)) \<and> carries_text rc"
  proof (intro allI impI)
    fix before rc after
    assume A: "[?e1, ?e2, ?e3] = before @ rc # after \<and> has_type ''response.completed'' rc
           \<and> (\<forall>x\<in>set after. \<not> has_type ''response.completed'' x)"
    then have "before = [?e1, ?e2] \<and> rc = ?e3"
      using n12 by (auto simp: Cons_eq_append_conv)
    then show "returns_at (Some fussy) rc (reached (Some fussy) before ([], 0)) \<and> carries_text rc"
      using q3 ct by simp
  qed
  have en: "ending \<lparr>chunks = [scenario], ending = Closed\<rparr> = Closed"
    by simp
  note A = completed_stream_result[where parse = JSON_parse and step = ascii_step and ?d0.0 = "()"
      and onEvent = "Some fussy" and response = "streamed [scenario] Closed"
      and src = "\<lparr>chunks = [scenario], ending = Closed\<rparr>" and pre = "[?e1, ?e2, ?e3]" and fin = ?e4
      and default_timeout = 60000 and ob = 0 and timeout = None,
      OF streamed_sel en fr ty un q4 pre]
  have fr2: "frames JSON_parse (decoded ascii_step () (concat (chunks \<lparr>chunks = [?short], ending = Closed\<rparr>))) =
            [] @ [?f]"
    by code_simp
  have ty2: "has_type ''stream.completed'' ?f" and ru2: "own_prop ?f ''run'' = Some (JObj [(''id'', JStr ''run_2'')])"
    by code_simp+
  have en2: "ending \<lparr>chunks = [?short], ending = Closed\<rparr> = Closed"
    by simp
  have pre2: "\<forall>before rc after.
           [] = before @ rc # after \<and> has_type ''response.completed'' rc
           \<and> (\<forall>x\<in>set after. \<not> has_type ''response.completed'' x)
           \<longrightarrow> returns_at (Some recorder) rc (reached (Some recorder) before ([], [])) \<and> carries_text rc"
    by simp
  have lg2: "fst (reached (Some recorder) ([] @ [?f]) ([], [])) = [?f]"
    by code_simp
  note B = completed_stream_result[where parse = JSON_parse and step = ascii_step and ?d0.0 = "()"
      and onEvent = "Some recorder" and response = "streamed [?short] Closed"
      and src = "\<lparr>chunks = [?short], ending = Closed\<rparr>" and pre = "[]" and fin = ?f
      and default_timeout = 60000 and ob = "[]" and timeout = None,
      OF streamed_sel en2 fr2 ty2 recorder_untouched recorder_effect(1) pre2]
  have A': "outcome (sendMessage JSON_parse ascii_step () 60000 (Some fussy) 0 None
                (Responds (streamed [scenario] Closed))) =
       Returned \<lparr>sm_content = Some (JStr ''Hi''),
          sm_run = Some (JObj [(''id'', JStr ''run_1''), (''status'', JStr ''success''),
                     (''tokens'', JObj [(''input'', JNum 10), (''output'', JNum 2)])]),
          sm_events = [?e1, ?e2, ?e3, ?e4]\<rparr>"
    unfolding A fi lg by (simp add: rc ru)
  have B': "outcome (sendMessage JSON_parse ascii_step () 60000 (Some recorder) [] None
                (Responds (streamed [?short] Closed))) =
       Returned \<lparr>sm_content = Some (JStr []), sm_run = Some (JObj [(''id'', JStr ''run_2'')]),
          sm_events = [?f]\<rparr>"
    unfolding B lg2 by (simp add: ru2)
  have un': "untouched (Some fussy) (frames JSON_parse (decoded ascii_step () (concat [scenario]))) ([], 0)"
    by (rule fussy_untouched)
  show ?thesis
    by (intro conjI) (rule streamed_sel fr' ty ct un' q0 q3 q4 A' B')+
qed

theorem observer_throw_loses_run_counterexample:
  \<open>frames JSON_parse (decoded ascii_step () (concat [scenario])) =
       [JObj [(''type'', JStr ''response.started'')],
        JObj [(''type'', JStr ''response.item.completed''),
              (''item'', JObj [(''type'', JStr ''text''), (''content'', JStr ''Hi'')])],
        JObj [(''type'', JStr ''response.completed''),
              (''response'', JObj [(''content'', JStr ''Hi'')])]] @
       [JObj [(''type'', JStr ''stream.completed''),
              (''run'', JObj [(''id'', JStr ''run_1''), (''status'', JStr ''success''),
                 (''tokens'', JObj [(''input'', JNum 10), (''output'', JNum 2)])])]]
   \<and> own_prop (JObj [(''type'', JStr ''stream.completed''),
              (''run'', JObj [(''id'', JStr ''run_1''), (''status'', JStr ''success''),
                 (''tokens'', JObj [(''input'', JNum 10), (''output'', JNum 2)])])]) ''run'' =
       Some (JObj [(''id'', JStr ''run_1''), (''status'', JStr ''success''),
                 (''tokens'', JObj [(''input'', JNum 10), (''output'', JNum 2)])])
   \<and> outcome (sendMessage JSON_parse ascii_step () 60000 (Some objector) () None
                (Responds (streamed [scenario] Closed))) =
       Returned
         \<lparr>sm_content = Some (JStr ''Hi''), sm_run = None,
          sm_events =
            [JObj [(''type'', JStr ''response.started'')],
             JObj [(''type'', JStr ''response.item.completed''),
                   (''item'', JObj [(''type'', JStr ''text''), (''content'', JStr ''Hi'')])],
             JObj [(''type'', JStr ''response.completed''),
                   (''response'', JObj [(''content'', JStr ''Hi'')])],
             JObj [(''type'', JStr ''stream.completed''),
                   (''run'', JObj [(''id'', JStr ''run_1''), (''status'', JStr ''success''),
                      (''tokens'', JObj [(''input'', JNum 10), (''output'', JNum 2)])])]]\<rparr>\<close>
proof -
  have fr: \<open>frames JSON_parse (decoded ascii_step () (concat [scenario])) =
       [JObj [(''type'', JStr ''response.started'')],
        JObj [(''type'', JStr ''response.item.completed''),
              (''item'', JObj [(''type'', JStr ''text''), (''content'', JStr ''Hi'')])],
        JObj [(''type'', JStr ''response.completed''),
              (''response'', JObj [(''content'', JStr ''Hi'')])]] @
       [JObj [(''type'', JStr ''stream.completed''),
              (''run'', JObj [(''id'', JStr ''run_1''), (''status'', JStr ''success''),
                 (''tokens'', JObj [(''input'', JNum 10), (''output'', JNum 2)])])]]\<close>
    by code_simp
  have ag: \<open>finalContent (aggregated JSON_parse (Some objector) ascii_step () ()
                 \<lparr>chunks = [scenario], ending = Closed\<rparr>) = Some (JStr ''Hi'')\<close>
    \<open>runDetails (aggregated JSON_parse (Some objector) ascii_step () ()
                 \<lparr>chunks = [scenario], ending = Closed\<rparr>) = None\<close>
    by code_simp+
  have ev: \<open>events (aggregated JSON_parse (Some objector) ascii_step () ()
                 \<lparr>chunks = [scenario], ending = Closed\<rparr>) =
            frames JSON_parse (decoded ascii_step () (concat [scenario]))\<close>
    using objector_unedited[of "frames JSON_parse (decoded ascii_step () (concat [scenario]))" "([], ())"]
    by (simp add: aggregated_events unedited_reached)
  have out: \<open>outcome (sendMessage JSON_parse ascii_step () 60000 (Some objector) () None
                (Responds (streamed [scenario] Closed))) =
       Returned \<lparr>sm_content = Some (JStr ''Hi''), sm_run = None,
          sm_events = frames JSON_parse (decoded ascii_step () (concat [scenario]))\<rparr>\<close>
    by (simp add: sendMessage_streamed[OF streamed_sel] ag ev)
  show ?thesis
    unfolding out fr by simp
qed

lemma show_nat_50: "show_nat 50 = ''50''"
  by (simp add: show_nat.simps)

text \<open>
  C1 (the code does otherwise). A \<^verbatim>\<open>stream.error\<close> event in the middle of a stream: the
  exception thrown for it is caught by the enclosing \<^verbatim>\<open>catch\<close> and only warned
  about, the events after it are handled as usual, and the call returns normally.
\<close>

theorem stream_error_is_swallowed:
  \<open>outcome (sendMessage JSON_parse ascii_step () 60000 (Some recorder) [] None
              (Responds (streamed [failing_scenario] Closed))) =
     Returned
       \<lparr>sm_content = Some (JStr ''after''), sm_run = None,
        sm_events =
          [JObj [(''type'', JStr ''response.started'')],
           JObj [(''type'', JStr ''stream.error''), (''error'', JStr ''agent_failed''),
                 (''message'', JStr ''boom'')],
           JObj [(''type'', JStr ''response.completed''),
                 (''response'', JObj [(''content'', JStr ''after'')])]]\<rparr>
   \<and> delivered (agg (final (sendMessage JSON_parse ascii_step () 60000 (Some recorder) [] None
              (Responds (streamed [failing_scenario] Closed))))) =
          [JObj [(''type'', JStr ''response.started'')],
           JObj [(''type'', JStr ''stream.error''), (''error'', JStr ''agent_failed''),
                 (''message'', JStr ''boom'')],
           JObj [(''type'', JStr ''response.completed''),
                 (''response'', JObj [(''content'', JStr ''after'')])]]
   \<and> warned (agg (final (sendMessage JSON_parse ascii_step () 60000 (Some recorder) [] None
              (Responds (streamed [failing_scenario] Closed))))) =
          [''data: {"type":"stream.error","error":"agent_failed","message":"boom"}'']\<close>
proof -
  have ag: \<open>aggregated JSON_parse (Some recorder) ascii_step () []
               \<lparr>chunks = [failing_scenario], ending = Closed\<rparr> =
      \<lparr>events =
          [JObj [(''type'', JStr ''response.started'')],
           JObj [(''type'', JStr ''stream.error''), (''error'', JStr ''agent_failed''),
                 (''message'', JStr ''boom'')],
           JObj [(''type'', JStr ''response.completed''),
                 (''response'', JObj [(''content'', JStr ''after'')])]],
       finalContent = Some (JStr ''after''), runDetails = None,
       warned = [''data: {"type":"stream.error","error":"agent_failed","message":"boom"}''],
       delivered =
          [JObj [(''type'', JStr ''response.started'')],
           JObj [(''type'', JStr ''stream.error''), (''error'', JStr ''agent_failed''),
                 (''message'', JStr ''boom'')],
           JObj [(''type'', JStr ''response.completed''),
                 (''response'', JObj [(''content'', JStr ''after'')])]],
       observer =
          [JObj [(''type'', JStr ''response.started'')],
           JObj [(''type'', JStr ''stream.error''), (''error'', JStr ''agent_failed''),
                 (''message'', JStr ''boom'')],
           JObj [(''type'', JStr ''response.completed''),
                 (''response'', JObj [(''content'', JStr ''after'')])]]\<rparr>\<close>
    by code_simp
  show ?thesis
    by (simp add: sendMessage_streamed[OF streamed_sel] ag)
qed

text \<open>
  C2 (the code does otherwise). With a deadline of 50 ms: when the response headers do
  not arrive in time the call raises the timeout error; when they arrive in time and the
  body then never delivers anything, the timer has been cancelled, the call never
  finishes and the reader is never released.
\<close>

theorem deadline_ends_with_the_headers:
  \<open>sendMessage JSON_parse ascii_step () 60000 (Some recorder) [] (Some 50) Overdue =
     \<lparr>outcome = Raised (ApiClientError (Some (JStr ''Request timeout after 50ms'')) 408
                          (Some (JStr ''TIMEOUT'')) None),
      final = initial_state () [], released = False, deadline = Fired\<rparr>
   \<and> sendMessage JSON_parse ascii_step () 60000 (Some recorder) [] (Some 50)
       (Responds (streamed [] Stalled)) =
     \<lparr>outcome = Hangs, final = initial_state () [], released = False, deadline = Cleared\<rparr>\<close>
proof -
  have a: "aggregated JSON_parse (Some recorder) ascii_step () [] \<lparr>chunks = [], ending = Stalled\<rparr>
           = agg (initial_state () [])"
    by (simp add: aggregated_def decoded_def complete_lines_def)
  show ?thesis
    by (simp add: sendMessage_streamed[OF streamed_sel] a decoded_def)
       (simp add: sendMessage_def request_def request_try_def request_catch_def clearTimeout_def
          show_nat_50 initial_state_def)
qed

text \<open>
  C6 (the code does otherwise). A transport failure is raised as the client's error with
  status 500 and code \<^verbatim>\<open>NETWORK_ERROR\<close>; but a successful response without a body, and a
  body that fails while it is read, raise errors that are not of the client's error class
  and carry neither status nor code.
\<close>

theorem bare_errors_reach_the_caller:
  \<open>outcome (sendMessage JSON_parse ascii_step () 60000 (Some recorder) [] None
              (Fails (TypeError ''fetch failed''))) =
     Raised (ApiClientError (Some (JStr ''fetch failed'')) 500 (Some (JStr ''NETWORK_ERROR'')) None)
   \<and> outcome (sendMessage JSON_parse ascii_step () 60000 (Some recorder) [] None
              (Responds bodiless)) =
     Raised (Error (Some (JStr ''No response body'')))
   \<and> \<not> is_ApiClientError (Error (Some (JStr ''No response body'')))
   \<and> outcome (sendMessage JSON_parse ascii_step () 60000 (Some recorder) [] None
              (Responds (streamed [] (Errored (TypeError ''terminated''))))) =
     Raised (TypeError ''terminated'')
   \<and> \<not> is_ApiClientError (TypeError ''terminated'')\<close>
  by (simp add: sendMessage_streamed[OF streamed_sel])
     (simp add: sendMessage_def request_def request_try_def request_catch_def clearTimeout_def
        bodiless_def is_ApiClientError_def)

section \<open>The orchestrator\<close>

lemma run_environment_given:
  "ro_environmentId options = Some e \<Longrightarrow> e \<noteq> [] \<Longrightarrow> run_environment srv options w = (Inr e, w)"
  by (simp add: run_environment_def truthy_str_def)

lemma run_environment_cached:
  "\<not> truthy_str (ro_environmentId options) \<Longrightarrow> defaultEnvironmentId w = Some c \<Longrightarrow> c \<noteq> [] \<Longrightarrow>
   run_environment srv options w = (Inr c, w)"
  by (simp add: run_environment_def ensureDefaultEnvironment_def truthy_str_def)

lemma run_environment_resolves:
  "\<not> truthy_str (ro_environmentId options) \<Longrightarrow> \<not> truthy_str (defaultEnvironmentId w) \<Longrightarrow>
   run_environment srv options w = resolveDefaultEnvironment srv w"
  by (simp add: run_environment_def ensureDefaultEnvironment_def)

lemma resolve_found:
  "list_environments srv (remote w) = (Inr envs, sv1) \<Longrightarrow>
   find (\<lambda>e. env_isDefault e = Some True) envs = Some env \<Longrightarrow>
   resolveDefaultEnvironment srv w =
     (Inr (env_id env),
      w\<lparr>remote := sv1, calls := calls w @ [ListEnvironments],
        defaultEnvironmentId := Some (env_id env)\<rparr>)"
  by (simp add: resolveDefaultEnvironment_def)

lemma resolve_created:
  "list_environments srv (remote w) = (Inr envs, sv1) \<Longrightarrow>
   find (\<lambda>e. env_isDefault e = Some True) envs = None \<Longrightarrow>
   create_environment srv
     \<lparr>cep_name = ''default'', cep_internetAccess = Some True, cep_isDefault = Some True\<rparr> sv1 =
     (Inr env, sv2) \<Longrightarrow>
   resolveDefaultEnvironment srv w =
     (Inr (env_id env),
      w\<lparr>remote := sv2,
        calls := calls w @ [ListEnvironments,
          CreateEnvironment \<lparr>cep_name = ''default'', cep_internetAccess = Some True,
                             cep_isDefault = Some True\<rparr>],
        defaultEnvironmentId := Some (env_id env)\<rparr>)"
  by (simp add: resolveDefaultEnvironment_def)

lemma run_thread_calls:
  "\<not> truthy_str (ro_threadId options) \<Longrightarrow>
   calls (snd (run_thread srv options eid w)) = calls w @ [CreateThread eid]"
  by (simp add: run_thread_def Let_def split: prod.splits sum.splits)

lemma run_calls_prefix:
  assumes "run_environment srv options w = (Inr eid, w1)"
    and "run_thread srv options eid w1 = (tr, w2)"
  shows "\<exists>rest. calls (snd (run parse step d0 default_timeout srv task options w)) = calls w2 @ rest"
  using assms
  by (auto simp: run_def Let_def split: prod.splits sum.splits outcome.splits)


lemma run_thread_supplied:
  "ro_threadId options = Some t \<Longrightarrow> t \<noteq> [] \<Longrightarrow> run_thread srv options eid w = (Inr t, w)"
  by (simp add: run_thread_def truthy_str_def)

lemma run_thread_created:
  "\<not> truthy_str (ro_threadId options) \<Longrightarrow> create_thread srv eid (remote w) = (Inr th, sv) \<Longrightarrow>
   run_thread srv options eid w =
     (Inr (thread_id th), w\<lparr>remote := sv, calls := calls w @ [CreateThread eid]\<rparr>)"
  by (simp add: run_thread_def)

lemma run_thread_failed:
  "\<not> truthy_str (ro_threadId options) \<Longrightarrow> create_thread srv eid (remote w) = (Inl x, sv) \<Longrightarrow>
   run_thread srv options eid w = (Inl x, w\<lparr>remote := sv, calls := calls w @ [CreateThread eid]\<rparr>)"
  by (simp add: run_thread_def)

lemma run_ReturnedD:
  assumes "run parse step d0 default_timeout srv task options w = (Returned r, w')"
  shows "\<exists>eid w1 tid w2. run_environment srv options w = (Inr eid, w1)
           \<and> run_thread srv options eid w1 = (Inr tid, w2)
           \<and> rr_threadId r = tid
           \<and> calls w' = calls w2 @ [SendMessage tid task]"
proof -
  obtain er w1 where e: "run_environment srv options w = (er, w1)"
    by (cases "run_environment srv options w")
  then obtain eid where er: "er = Inr eid"
    using assms by (cases er) (auto simp: run_def)
  obtain tr w2 where t: "run_thread srv options eid w1 = (tr, w2)"
    by (cases "run_thread srv options eid w1")
  then obtain tid where tr: "tr = Inr tid"
    using assms e er by (cases tr) (auto simp: run_def)
  have "rr_threadId r = tid \<and> calls w' = calls w2 @ [SendMessage tid task]"
    using assms e er t tr
    by (auto simp: run_def Let_def split: prod.splits outcome.splits)
  then show ?thesis
    using e er t tr by blast
qed

lemma resolutions_append [simp]: "resolutions (xs @ ys) = resolutions xs + resolutions ys"
  by (simp add: resolutions_def)

lemma resolutions_simps [simp]:
  "resolutions [] = 0"
  "resolutions (ListEnvironments # cs) = Suc (resolutions cs)"
  "resolutions (CreateEnvironment p # cs) = resolutions cs"
  "resolutions (CreateThread e # cs) = resolutions cs"
  "resolutions (SendMessage t c # cs) = resolutions cs"
  by (simp_all add: resolutions_def)

lemma resolve_resolutions:
  "resolutions (calls (snd (resolveDefaultEnvironment srv w))) = Suc (resolutions (calls w))"
  by (simp add: resolveDefaultEnvironment_def Let_def split: prod.splits sum.splits option.splits)

lemma run_environment_resolutions:
  "resolutions (calls (snd (run_environment srv options w))) \<le> Suc (resolutions (calls w))"
  by (simp add: run_environment_def ensureDefaultEnvironment_def resolve_resolutions)

lemma run_thread_resolutions:
  "resolutions (calls (snd (run_thread srv options eid w))) = resolutions (calls w)"
  by (simp add: run_thread_def Let_def split: prod.splits sum.splits)

lemma run_resolutions:
  "resolutions (calls (snd (run parse step d0 default_timeout srv task options w))) \<le>
     Suc (resolutions (calls w))"
proof -
  obtain er w1 where e: "run_environment srv options w = (er, w1)"
    by (cases "run_environment srv options w")
  have 1: "resolutions (calls w1) \<le> Suc (resolutions (calls w))"
    using run_environment_resolutions[of srv options w] e by simp
  show ?thesis
  proof (cases er)
    case (Inl x)
    then show ?thesis using e 1 by (simp add: run_def)
  next
    case (Inr eid)
    obtain tr w2 where t: "run_thread srv options eid w1 = (tr, w2)"
      by (cases "run_thread srv options eid w1")
    have 2: "resolutions (calls w2) = resolutions (calls w1)"
      using run_thread_resolutions[of srv options eid w1] t by simp
    show ?thesis
      using e Inr t 1 2
      by (cases tr) (auto simp: run_def Let_def split: prod.splits outcome.splits)
  qed
qed

lemma run_cache:
  assumes "run_environment srv options w = (er, w1)"
  shows "defaultEnvironmentId (snd (run parse step d0 default_timeout srv task options w)) =
         defaultEnvironmentId w1"
proof (cases er)
  case (Inl x)
  then show ?thesis using assms by (simp add: run_def)
next
  case (Inr eid)
  obtain tr w2 where t: "run_thread srv options eid w1 = (tr, w2)"
    by (cases "run_thread srv options eid w1")
  have c: "defaultEnvironmentId w2 = defaultEnvironmentId w1"
    using t by (auto simp: run_thread_def Let_def split: if_splits prod.splits sum.splits)
  show ?thesis
    using assms Inr t c
    by (cases tr) (auto simp: run_def Let_def split: prod.splits outcome.splits)
qed

lemma run_uses_environment:
  assumes "run_environment srv options w = (Inr eid, w1)" and "\<not> truthy_str (ro_threadId options)"
  shows "take (Suc (length (calls w1)))
           (calls (snd (run parse step d0 default_timeout srv task options w))) =
         calls w1 @ [CreateThread eid]"
proof -
  obtain tr w2 where t: "run_thread srv options eid w1 = (tr, w2)"
    by (cases "run_thread srv options eid w1")
  have c: "calls w2 = calls w1 @ [CreateThread eid]"
    using run_thread_calls[OF assms(2), of srv eid w1] t by simp
  obtain rest where "calls (snd (run parse step d0 default_timeout srv task options w)) =
      calls w2 @ rest"
    using run_calls_prefix[OF assms(1) t, of parse step d0 default_timeout task] by blast
  then show ?thesis by (simp add: c)
qed

text \<open>
  C7, as amended. The environment a \<^verbatim>\<open>run\<close> call works in: the non-empty
  \<^verbatim>\<open>options.environmentId\<close> when there is one, unchanged and without any call; otherwise
  the non-empty cached id when there is one, without any call; otherwise the environments
  are listed, and the id is that of the first environment flagged default or, when none
  is flagged, of an environment created with name \<^verbatim>\<open>default\<close>, internet access and the
  default flag. A resolved id is in the cache when resolution returns, and stays there;
  when no thread id is supplied the next call creates a thread in that environment.
\<close>

theorem environment_resolution:
  fixes w :: "('sv, 'o) world" and srv :: "('sv, 'b) server"
  shows "(\<forall>e. ro_environmentId options = Some e \<and> e \<noteq> [] \<longrightarrow>
            run_environment srv options w = (Inr e, w))
       \<and> (\<forall>c. \<not> truthy_str (ro_environmentId options) \<and> defaultEnvironmentId w = Some c \<and> c \<noteq> [] \<longrightarrow>
            run_environment srv options w = (Inr c, w))
       \<and> (\<forall>envs sv1 env. \<not> truthy_str (ro_environmentId options)
              \<and> \<not> truthy_str (defaultEnvironmentId w)
              \<and> list_environments srv (remote w) = (Inr envs, sv1)
              \<and> find (\<lambda>e. env_isDefault e = Some True) envs = Some env \<longrightarrow>
            run_environment srv options w =
              (Inr (env_id env),
               w\<lparr>remote := sv1, calls := calls w @ [ListEnvironments],
                 defaultEnvironmentId := Some (env_id env)\<rparr>))
       \<and> (\<forall>envs sv1 env sv2. \<not> truthy_str (ro_environmentId options)
              \<and> \<not> truthy_str (defaultEnvironmentId w)
              \<and> list_environments srv (remote w) = (Inr envs, sv1)
              \<and> find (\<lambda>e. env_isDefault e = Some True) envs = None
              \<and> create_environment srv
                   \<lparr>cep_name = ''default'', cep_internetAccess = Some True,
                    cep_isDefault = Some True\<rparr> sv1 = (Inr env, sv2) \<longrightarrow>
            run_environment srv options w =
              (Inr (env_id env),
               w\<lparr>remote := sv2,
                 calls := calls w @ [ListEnvironments,
                   CreateEnvironment \<lparr>cep_name = ''default'', cep_internetAccess = Some True,
                                      cep_isDefault = Some True\<rparr>],
                 defaultEnvironmentId := Some (env_id env)\<rparr>))
       \<and> (\<forall>eid w1. run_environment srv options w = (Inr eid, w1) \<longrightarrow>
            defaultEnvironmentId (snd (run parse step d0 default_timeout srv task options w)) =
              defaultEnvironmentId w1
          \<and> (\<not> truthy_str (ro_threadId options) \<longrightarrow>
               take (Suc (length (calls w1)))
                 (calls (snd (run parse step d0 default_timeout srv task options w))) =
               calls w1 @ [CreateThread eid]))"
  by (intro conjI allI impI)
     (simp_all add: run_environment_given run_environment_cached run_environment_resolves
        resolve_found resolve_created run_cache run_uses_environment)


lemma show_nat_0: "show_nat 0 = ''0''"
  by (simp add: show_nat.simps)

theorem environment_resolution_witness:
  \<open>run_environment demo_server (no_options\<lparr>ro_environmentId := Some ''env_x''\<rparr>)
      (fresh ([], 0) ()) = (Inr ''env_x'', fresh ([], 0) ())
   \<and> run_environment demo_server no_options
        ((fresh ([], 0) ())\<lparr>defaultEnvironmentId := Some ''env_c''\<rparr>) =
       (Inr ''env_c'', (fresh ([], 0) ())\<lparr>defaultEnvironmentId := Some ''env_c''\<rparr>)
   \<and> run_environment demo_server no_options
        (fresh ([\<lparr>env_id = ''env_a'', env_name = ''first'', env_isDefault = None,
                  env_internetAccess = None\<rparr>,
                 \<lparr>env_id = ''env_b'', env_name = ''second'', env_isDefault = Some True,
                  env_internetAccess = Some False\<rparr>], 0) ()) =
       (Inr ''env_b'',
        (fresh ([\<lparr>env_id = ''env_a'', env_name = ''first'', env_isDefault = None,
                  env_internetAccess = None\<rparr>,
                 \<lparr>env_id = ''env_b'', env_name = ''second'', env_isDefault = Some True,
                  env_internetAccess = Some False\<rparr>], 0) ())
          \<lparr>calls := [ListEnvironments], defaultEnvironmentId := Some ''env_b''\<rparr>)
   \<and> run_environment demo_server no_options (fresh ([], 0) ()) =
       (Inr ''env_0'',
        \<lparr>defaultEnvironmentId = Some ''env_0'',
         remote = ([\<lparr>env_id = ''env_0'', env_name = ''default'', env_isDefault = Some True,
                     env_internetAccess = Some True\<rparr>], 0),
         calls = [ListEnvironments,
                  CreateEnvironment \<lparr>cep_name = ''default'', cep_internetAccess = Some True,
                                     cep_isDefault = Some True\<rparr>],
         onlooker = (), console = []\<rparr>)
   \<and> take 3 (calls (snd (run JSON_parse ascii_step () 60000 demo_server ''task'' no_options
                           (fresh ([], 0) ())))) =
       [ListEnvironments,
        CreateEnvironment \<lparr>cep_name = ''default'', cep_internetAccess = Some True,
                           cep_isDefault = Some True\<rparr>,
        CreateThread ''env_0'']
   \<and> defaultEnvironmentId (snd (run JSON_parse ascii_step () 60000 demo_server ''task'' no_options
                           (fresh ([], 0) ()))) = Some ''env_0''\<close>
proof -
  let ?ea = "\<lparr>env_id = ''env_a'', env_name = ''first'', env_isDefault = None,
                  env_internetAccess = None\<rparr>"
  let ?eb = "\<lparr>env_id = ''env_b'', env_name = ''second'', env_isDefault = Some True,
                  env_internetAccess = Some False\<rparr>"
  let ?e0 = "\<lparr>env_id = ''env_0'', env_name = ''default'', env_isDefault = Some True,
                     env_internetAccess = Some True\<rparr>"
  let ?w0 = "fresh ([] :: environment list, 0 :: nat) ()"
  let ?w1 = "\<lparr>defaultEnvironmentId = Some ''env_0'', remote = ([?e0], 0 :: nat),
         calls = [ListEnvironments,
                  CreateEnvironment \<lparr>cep_name = ''default'', cep_internetAccess = Some True,
                                     cep_isDefault = Some True\<rparr>],
         onlooker = (), console = []\<rparr>"
  have 1: "run_environment demo_server (no_options\<lparr>ro_environmentId := Some ''env_x''\<rparr>) ?w0 =
           (Inr ''env_x'', ?w0)"
    using environment_resolution[where srv = demo_server and w = ?w0
        and options = "no_options\<lparr>ro_environmentId := Some ''env_x''\<rparr>",
        THEN conjunct1, rule_format, of "''env_x''"]
    by simp
  have 2: "run_environment demo_server no_options (?w0\<lparr>defaultEnvironmentId := Some ''env_c''\<rparr>) =
           (Inr ''env_c'', ?w0\<lparr>defaultEnvironmentId := Some ''env_c''\<rparr>)"
    using environment_resolution[where srv = demo_server
        and w = "?w0\<lparr>defaultEnvironmentId := Some ''env_c''\<rparr>" and options = no_options,
        THEN conjunct2, THEN conjunct1, rule_format, of "''env_c''"]
    by (simp add: no_options_def truthy_str_def)
  have n1: "\<not> truthy_str (ro_environmentId (no_options :: unit run_options))"
    by (simp add: no_options_def truthy_str_def)
  have n2: "\<not> truthy_str (defaultEnvironmentId (fresh sv ()))" for sv :: "environment list \<times> nat"
    by (simp add: fresh_def truthy_str_def)
  have l3: "list_environments demo_server (remote (fresh ([?ea, ?eb], 0 :: nat) ())) =
            (Inr [?ea, ?eb], ([?ea, ?eb], 0))"
    by (simp add: demo_server_def fresh_def)
  have f3: "find (\<lambda>e. env_isDefault e = Some True) [?ea, ?eb] = Some ?eb"
    by simp
  have 3: "run_environment demo_server no_options (fresh ([?ea, ?eb], 0) ()) =
       (Inr ''env_b'',
        (fresh ([?ea, ?eb], 0) ())\<lparr>calls := [ListEnvironments], defaultEnvironmentId := Some ''env_b''\<rparr>)"
    using environment_resolution[where srv = demo_server
        and w = "fresh ([?ea, ?eb], 0 :: nat) ()" and options = "no_options :: unit run_options",
        THEN conjunct2, THEN conjunct2, THEN conjunct1, rule_format,
        of "[?ea, ?eb]" "([?ea, ?eb], 0)" ?eb, OF conjI[OF n1 conjI[OF n2 conjI[OF l3 f3]]]]
    by (simp add: fresh_def)
  have l4: "list_environments demo_server (remote ?w0) = (Inr [], ([], 0))"
    by (simp add: demo_server_def fresh_def)
  have f4: "find (\<lambda>e. env_isDefault e = Some True) ([] :: environment list) = None"
    by simp
  have c4: "create_environment demo_server
              \<lparr>cep_name = ''default'', cep_internetAccess = Some True, cep_isDefault = Some True\<rparr>
              ([], 0) = (Inr ?e0, ([?e0], 0))"
    by (simp add: demo_server_def Let_def show_nat_0)
  have 4: "run_environment demo_server no_options ?w0 = (Inr ''env_0'', ?w1)"
    using environment_resolution[where srv = demo_server and w = ?w0
        and options = "no_options :: unit run_options",
        THEN conjunct2, THEN conjunct2, THEN conjunct2, THEN conjunct1, rule_format,
        of "[]" "([], 0)" ?e0 "([?e0], 0)", OF conjI[OF n1 conjI[OF n2 conjI[OF l4 conjI[OF f4 c4]]]]]
    by (simp add: fresh_def)
  have 5: "defaultEnvironmentId (snd (run JSON_parse ascii_step () 60000 demo_server ''task''
              no_options ?w0)) = defaultEnvironmentId ?w1
         \<and> take (Suc (length (calls ?w1)))
               (calls (snd (run JSON_parse ascii_step () 60000 demo_server ''task'' no_options ?w0))) =
             calls ?w1 @ [CreateThread ''env_0'']"
    using environment_resolution[where srv = demo_server and w = ?w0 and options = no_options
        and parse = JSON_parse and step = ascii_step and ?d0.0 = "()" and default_timeout = 60000
        and task = "''task''",
        THEN conjunct2, THEN conjunct2, THEN conjunct2, THEN conjunct2, rule_format, OF 4]
    by (simp add: no_options_def truthy_str_def)
  have 6: "take 3 (calls (snd (run JSON_parse ascii_step () 60000 demo_server ''task'' no_options ?w0))) =
           calls ?w1 @ [CreateThread ''env_0'']"
    using 5 by (simp add: numeral_3_eq_3)
  show ?thesis
    using 1 2 3 4 5 6 by simp
qed

theorem empty_environment_id_counterexample:
  \<open>ro_environmentId (no_options\<lparr>ro_environmentId := Some []\<rparr>) = Some []
   \<and> run_environment demo_server (no_options\<lparr>ro_environmentId := Some []\<rparr>)
        (fresh ([\<lparr>env_id = ''env_b'', env_name = ''second'', env_isDefault = Some True,
                  env_internetAccess = Some False\<rparr>], 0) ()) =
       (Inr ''env_b'',
        \<lparr>defaultEnvironmentId = Some ''env_b'',
         remote = ([\<lparr>env_id = ''env_b'', env_name = ''second'', env_isDefault = Some True,
                     env_internetAccess = Some False\<rparr>], 0),
         calls = [ListEnvironments], onlooker = (), console = []\<rparr>)\<close>
  by (simp add: run_environment_def ensureDefaultEnvironment_def resolveDefaultEnvironment_def
        truthy_str_def no_options_def fresh_def demo_server_def)

lemma resolve_calls:
  "\<exists>xs. calls (snd (resolveDefaultEnvironment srv w)) = calls w @ xs \<and> (\<forall>e. CreateThread e \<notin> set xs)"
  by (auto simp: resolveDefaultEnvironment_def Let_def split: prod.splits sum.splits option.splits)

lemma run_environment_calls:
  "\<exists>xs. calls (snd (run_environment srv options w)) = calls w @ xs \<and> (\<forall>e. CreateThread e \<notin> set xs)"
  using resolve_calls[of srv w]
  by (auto simp: run_environment_def ensureDefaultEnvironment_def)

text \<open>
  C8, as amended. A successful \<^verbatim>\<open>run\<close> call returns the supplied thread id, when one is
  supplied and it is not empty, and then creates no thread; otherwise it creates a thread
  in the resolved environment and returns the id the service gave it. Each call lists the
  environments at most once, so two calls in a row do so at most twice.
\<close>

theorem run_thread_id:
  fixes w :: "('sv, 'o) world" and srv :: "('sv, 'b) server"
  assumes "run parse step d0 default_timeout srv task options w = (Returned r, w')"
  shows "(\<forall>t. ro_threadId options = Some t \<and> t \<noteq> [] \<longrightarrow>
            rr_threadId r = t
          \<and> (\<exists>xs. calls w' = calls w @ xs @ [SendMessage t task] \<and> (\<forall>e. CreateThread e \<notin> set xs)))
       \<and> (\<not> truthy_str (ro_threadId options) \<longrightarrow>
            (\<exists>eid w1 th sv. run_environment srv options w = (Inr eid, w1)
               \<and> create_thread srv eid (remote w1) = (Inr th, sv)
               \<and> rr_threadId r = thread_id th
               \<and> calls w' = calls w1 @ [CreateThread eid, SendMessage (thread_id th) task]))
       \<and> resolutions (calls w') \<le> Suc (resolutions (calls w))
       \<and> resolutions (calls (snd (run parse step d0 default_timeout srv task' options' w'))) \<le>
           Suc (Suc (resolutions (calls w)))"
proof -
  obtain eid w1 tid w2 where e: "run_environment srv options w = (Inr eid, w1)"
    and t: "run_thread srv options eid w1 = (Inr tid, w2)"
    and r: "rr_threadId r = tid" and c: "calls w' = calls w2 @ [SendMessage tid task]"
    using run_ReturnedD[OF assms] by blast
  obtain xs where xs: "calls w1 = calls w @ xs" "\<forall>e. CreateThread e \<notin> set xs"
    using run_environment_calls[of srv options w] e by auto
  have a: "rr_threadId r = t' \<and>
      (\<exists>xs. calls w' = calls w @ xs @ [SendMessage t' task] \<and> (\<forall>e. CreateThread e \<notin> set xs))"
    if "ro_threadId options = Some t'" "t' \<noteq> []" for t'
  proof -
    have "run_thread srv options eid w1 = (Inr t', w1)"
      using run_thread_supplied[OF that] .
    then have "tid = t'" "w2 = w1" using t by simp_all
    then show ?thesis using r c xs by auto
  qed
  have b: "\<exists>eid w1 th sv. run_environment srv options w = (Inr eid, w1)
               \<and> create_thread srv eid (remote w1) = (Inr th, sv)
               \<and> rr_threadId r = thread_id th
               \<and> calls w' = calls w1 @ [CreateThread eid, SendMessage (thread_id th) task]"
    if n: "\<not> truthy_str (ro_threadId options)"
  proof -
    obtain cr sv where cr: "create_thread srv eid (remote w1) = (cr, sv)"
      by (cases "create_thread srv eid (remote w1)")
    show ?thesis
    proof (cases cr)
      case (Inl x)
      then show ?thesis
        using run_thread_failed[OF n, of srv eid w1 x sv] cr t by simp
    next
      case (Inr th)
      then have "run_thread srv options eid w1 =
          (Inr (thread_id th), w1\<lparr>remote := sv, calls := calls w1 @ [CreateThread eid]\<rparr>)"
        using run_thread_created[OF n, of srv eid w1 th sv] cr by simp
      then have "tid = thread_id th" "calls w2 = calls w1 @ [CreateThread eid]"
        using t by auto
      then show ?thesis using e cr Inr r c by auto
    qed
  qed
  have one: "resolutions (calls w') \<le> Suc (resolutions (calls w))"
    using run_resolutions[of parse step d0 default_timeout srv task options w] assms by simp
  have two: "resolutions (calls (snd (run parse step d0 default_timeout srv task' options' w'))) \<le>
           Suc (resolutions (calls w'))"
    by (rule run_resolutions)
  show ?thesis
    using a b one two by auto
qed


lemma demo_reply:
  \<open>outcome (sendMessage JSON_parse ascii_step () default_timeout None () timeout
              (Responds (streamed [scenario] Closed))) =
     Returned
       \<lparr>sm_content = Some (JStr ''Hi''),
        sm_run = Some (JObj [(''id'', JStr ''run_1''), (''status'', JStr ''success''),
                   (''tokens'', JObj [(''input'', JNum 10), (''output'', JNum 2)])]),
        sm_events = frames JSON_parse (decoded ascii_step () (concat [scenario]))\<rparr>\<close>
  \<open>warned (agg (final (sendMessage JSON_parse ascii_step () default_timeout None () timeout
              (Responds (streamed [scenario] Closed))))) = []\<close>
proof -
  have ag: \<open>finalContent (aggregated JSON_parse None ascii_step () ()
                 \<lparr>chunks = [scenario], ending = Closed\<rparr>) = Some (JStr ''Hi'')\<close>
    \<open>runDetails (aggregated JSON_parse None ascii_step () ()
                 \<lparr>chunks = [scenario], ending = Closed\<rparr>) =
       Some (JObj [(''id'', JStr ''run_1''), (''status'', JStr ''success''),
                   (''tokens'', JObj [(''input'', JNum 10), (''output'', JNum 2)])])\<close>
    \<open>warned (aggregated JSON_parse None ascii_step () ()
                 \<lparr>chunks = [scenario], ending = Closed\<rparr>) = []\<close>
    by code_simp+
  show \<open>outcome (sendMessage JSON_parse ascii_step () default_timeout None () timeout
              (Responds (streamed [scenario] Closed))) =
     Returned
       \<lparr>sm_content = Some (JStr ''Hi''),
        sm_run = Some (JObj [(''id'', JStr ''run_1''), (''status'', JStr ''success''),
                   (''tokens'', JObj [(''input'', JNum 10), (''output'', JNum 2)])]),
        sm_events = frames JSON_parse (decoded ascii_step () (concat [scenario]))\<rparr>\<close>
    by (simp add: sendMessage_streamed[OF streamed_sel] ag aggregated_events_None)
  show \<open>warned (agg (final (sendMessage JSON_parse ascii_step () default_timeout None () timeout
              (Responds (streamed [scenario] Closed))))) = []\<close>
    by (simp add: sendMessage_streamed[OF streamed_sel] ag)
qed

lemma demo_first_run:
  \<open>run JSON_parse ascii_step () 60000 demo_server ''task'' no_options (fresh ([], 0) ()) =
     (Returned
        \<lparr>rr_content = Some (JStr ''Hi''), rr_threadId = ''thread_0'',
         rr_run = Some (JObj [(''id'', JStr ''run_1''), (''status'', JStr ''success''),
                    (''tokens'', JObj [(''input'', JNum 10), (''output'', JNum 2)])])\<rparr>,
      \<lparr>defaultEnvironmentId = Some ''env_0'',
       remote = ([\<lparr>env_id = ''env_0'', env_name = ''default'', env_isDefault = Some True,
                   env_internetAccess = Some True\<rparr>], 1),
       calls = [ListEnvironments,
                CreateEnvironment \<lparr>cep_name = ''default'', cep_internetAccess = Some True,
                                   cep_isDefault = Some True\<rparr>,
                CreateThread ''env_0'', SendMessage ''thread_0'' ''task''],
       onlooker = (), console = []\<rparr>)\<close>
  by (simp add: run_def run_environment_def ensureDefaultEnvironment_def
        resolveDefaultEnvironment_def run_thread_def truthy_str_def no_options_def fresh_def
        demo_server_def Let_def show_nat_0 demo_reply)


lemma demo_second_run:
  \<open>run JSON_parse ascii_step () 60000 demo_server ''more''
       (no_options\<lparr>ro_threadId := Some ''thread_0''\<rparr>)
       \<lparr>defaultEnvironmentId = Some ''env_0'',
        remote = ([\<lparr>env_id = ''env_0'', env_name = ''default'', env_isDefault = Some True,
                    env_internetAccess = Some True\<rparr>], 1),
        calls = [ListEnvironments,
                 CreateEnvironment \<lparr>cep_name = ''default'', cep_internetAccess = Some True,
                                    cep_isDefault = Some True\<rparr>,
                 CreateThread ''env_0'', SendMessage ''thread_0'' ''task''],
        onlooker = (), console = []\<rparr> =
     (Returned
        \<lparr>rr_content = Some (JStr ''Hi''), rr_threadId = ''thread_0'',
         rr_run = Some (JObj [(''id'', JStr ''run_1''), (''status'', JStr ''success''),
                    (''tokens'', JObj [(''input'', JNum 10), (''output'', JNum 2)])])\<rparr>,
      \<lparr>defaultEnvironmentId = Some ''env_0'',
       remote = ([\<lparr>env_id = ''env_0'', env_name = ''default'', env_isDefault = Some True,
                   env_internetAccess = Some True\<rparr>], 1),
       calls = [ListEnvironments,
                CreateEnvironment \<lparr>cep_name = ''default'', cep_internetAccess = Some True,
                                   cep_isDefault = Some True\<rparr>,
                CreateThread ''env_0'', SendMessage ''thread_0'' ''task'',
                SendMessage ''thread_0'' ''more''],
       onlooker = (), console = []\<rparr>)\<close>
  by (simp add: run_def run_environment_def ensureDefaultEnvironment_def
        run_thread_def truthy_str_def no_options_def
        demo_server_def Let_def demo_reply)

theorem run_thread_id_witness:
  \<open>fst (run JSON_parse ascii_step () 60000 demo_server ''task'' no_options (fresh ([], 0) ())) =
       Returned
         \<lparr>rr_content = Some (JStr ''Hi''), rr_threadId = ''thread_0'',
          rr_run = Some (JObj [(''id'', JStr ''run_1''), (''status'', JStr ''success''),
                     (''tokens'', JObj [(''input'', JNum 10), (''output'', JNum 2)])])\<rparr>
   \<and> fst (run JSON_parse ascii_step () 60000 demo_server ''more''
            (no_options\<lparr>ro_threadId := Some ''thread_0''\<rparr>)
            (snd (run JSON_parse ascii_step () 60000 demo_server ''task'' no_options
                    (fresh ([], 0) ())))) =
       Returned
         \<lparr>rr_content = Some (JStr ''Hi''), rr_threadId = ''thread_0'',
          rr_run = Some (JObj [(''id'', JStr ''run_1''), (''status'', JStr ''success''),
                     (''tokens'', JObj [(''input'', JNum 10), (''output'', JNum 2)])])\<rparr>
   \<and> calls (snd (run JSON_parse ascii_step () 60000 demo_server ''more''
            (no_options\<lparr>ro_threadId := Some ''thread_0''\<rparr>)
            (snd (run JSON_parse ascii_step () 60000 demo_server ''task'' no_options
                    (fresh ([], 0) ()))))) =
       [ListEnvironments,
        CreateEnvironment \<lparr>cep_name = ''default'', cep_internetAccess = Some True,
                           cep_isDefault = Some True\<rparr>,
        CreateThread ''env_0'', SendMessage ''thread_0'' ''task'',
        SendMessage ''thread_0'' ''more'']
   \<and> resolutions (calls (snd (run JSON_parse ascii_step () 60000 demo_server ''again'' no_options
            (snd (run JSON_parse ascii_step () 60000 demo_server ''task'' no_options
                    (fresh ([], 0) ())))))) \<le> 2
   \<and> \<not> truthy_str (ro_threadId (no_options :: unit run_options))
   \<and> (\<exists>eid w1 th sv.
         run_environment demo_server no_options (fresh ([], 0) ()) = (Inr eid, w1)
       \<and> create_thread demo_server eid (remote w1) = (Inr th, sv)
       \<and> ''thread_0'' = thread_id th
       \<and> calls (snd (run JSON_parse ascii_step () 60000 demo_server ''task'' no_options
                        (fresh ([], 0) ()))) =
           calls w1 @ [CreateThread eid, SendMessage (thread_id th) ''task''])\<close>
proof -
  let ?run1 = \<open>run JSON_parse ascii_step () 60000 demo_server ''task'' no_options (fresh ([], 0) ())\<close>
  let ?w1 = "snd ?run1"
  let ?opts2 = \<open>no_options\<lparr>ro_threadId := Some ''thread_0''\<rparr> :: unit run_options\<close>
  let ?run2 = \<open>run JSON_parse ascii_step () 60000 demo_server ''more'' ?opts2 ?w1\<close>
  have n: "\<not> truthy_str (ro_threadId (no_options :: unit run_options))"
    by (simp add: no_options_def truthy_str_def)
  have s: "ro_threadId ?opts2 = Some ''thread_0'' \<and> ''thread_0'' \<noteq> []"
    by simp
  have f: "resolutions (calls (fresh ([] :: environment list, 0 :: nat) ())) = 0"
    by (simp add: fresh_def)
  note A = run_thread_id[OF demo_first_run, where task' = \<open>''again''\<close> and options' = no_options]
  have a1: \<open>fst ?run1 = Returned
         \<lparr>rr_content = Some (JStr ''Hi''), rr_threadId = ''thread_0'',
          rr_run = Some (JObj [(''id'', JStr ''run_1''), (''status'', JStr ''success''),
                     (''tokens'', JObj [(''input'', JNum 10), (''output'', JNum 2)])])\<rparr>\<close>
    by (simp only: demo_first_run fst_conv)
  have a2: \<open>resolutions (calls (snd (run JSON_parse ascii_step () 60000 demo_server ''again''
                no_options ?w1))) \<le> 2\<close>
    using A[THEN conjunct2, THEN conjunct2, THEN conjunct2] f
    by (simp add: demo_first_run numeral_2_eq_2)
  have r2: "?run2 = (fst ?run2, snd ?run2)"
    by simp
  have r2': "fst ?run2 = Returned
         \<lparr>rr_content = Some (JStr ''Hi''), rr_threadId = ''thread_0'',
          rr_run = Some (JObj [(''id'', JStr ''run_1''), (''status'', JStr ''success''),
                     (''tokens'', JObj [(''input'', JNum 10), (''output'', JNum 2)])])\<rparr>"
    by (simp only: demo_first_run snd_conv demo_second_run fst_conv)
  note B = run_thread_id[OF r2[unfolded r2'], THEN conjunct1, rule_format, OF s]
  have b: \<open>calls (snd ?run2) =
       [ListEnvironments,
        CreateEnvironment \<lparr>cep_name = ''default'', cep_internetAccess = Some True,
                           cep_isDefault = Some True\<rparr>,
        CreateThread ''env_0'', SendMessage ''thread_0'' ''task'',
        SendMessage ''thread_0'' ''more'']\<close>
    by (simp only: demo_first_run snd_conv demo_second_run fst_conv) simp
  have a3: \<open>\<exists>eid w1 th sv.
         run_environment demo_server no_options (fresh ([], 0) ()) = (Inr eid, w1)
       \<and> create_thread demo_server eid (remote w1) = (Inr th, sv)
       \<and> ''thread_0'' = thread_id th
       \<and> calls ?w1 = calls w1 @ [CreateThread eid, SendMessage (thread_id th) ''task'']\<close>
    using A[THEN conjunct2, THEN conjunct1, rule_format, OF n]
    by (simp only: demo_first_run snd_conv run_result.simps)
  show ?thesis
    using a1 a2 a3 n r2' b B by simp
qed

theorem empty_thread_id_counterexample:
  \<open>ro_threadId (no_options\<lparr>ro_threadId := Some []\<rparr>) = Some []
   \<and> run JSON_parse ascii_step () 60000 demo_server ''task'' (no_options\<lparr>ro_threadId := Some []\<rparr>)
        (fresh ([], 0) ()) =
     (Returned
        \<lparr>rr_content = Some (JStr ''Hi''), rr_threadId = ''thread_0'',
         rr_run = Some (JObj [(''id'', JStr ''run_1''), (''status'', JStr ''success''),
                    (''tokens'', JObj [(''input'', JNum 10), (''output'', JNum 2)])])\<rparr>,
      \<lparr>defaultEnvironmentId = Some ''env_0'',
       remote = ([\<lparr>env_id = ''env_0'', env_name = ''default'', env_isDefault = Some True,
                   env_internetAccess = Some True\<rparr>], 1),
       calls = [ListEnvironments,
                CreateEnvironment \<lparr>cep_name = ''default'', cep_internetAccess = Some True,
                                   cep_isDefault = Some True\<rparr>,
                CreateThread ''env_0'', SendMessage ''thread_0'' ''task''],
       onlooker = (), console = []\<rparr>)\<close>
  by (simp add: run_def run_environment_def ensureDefaultEnvironment_def
        resolveDefaultEnvironment_def run_thread_def truthy_str_def no_options_def fresh_def
        demo_server_def Let_def show_nat_0 demo_reply)

end
